theory Spec2Isabelle
  imports Complex_Main
begin

section \<open>ECMAScript dates and numbers\<close>

text \<open>
  The services compute with JavaScript \<open>Date\<close> objects. A \<open>Date\<close> holds a time value:
  an integral number of milliseconds since 1970-01-01T00:00:00Z, or NaN (an Invalid
  Date), modelled as \<open>None\<close>. The calendar functions below are the abstract operations
  of the ECMAScript specification (Day, TimeWithinDay, DayFromYear, YearFromTime,
  MonthFromTime, DateFromTime, MakeDay, MakeDate, TimeClip). \<open>getMonth\<close>, \<open>setMonth\<close>,
  \<open>getDate\<close> and \<open>setDate\<close> work in local time; the process is taken to run in UTC
  (local time zone adjustment 0).
\<close>

datatype Date = Date (getTime: "int option")

definition msPerDay :: int where
  "msPerDay = 86400000"

definition maxTime :: int where
  "maxTime = 8640000000000000"

definition TimeClip :: "int \<Rightarrow> int option" where
  "TimeClip t = (if \<bar>t\<bar> \<le> maxTime then Some t else None)"

definition Day :: "int \<Rightarrow> int" where
  "Day t = t div msPerDay"

definition TimeWithinDay :: "int \<Rightarrow> int" where
  "TimeWithinDay t = t mod msPerDay"

definition DayFromYear :: "int \<Rightarrow> int" where
  "DayFromYear y =
     365 * (y - 1970) + (y - 1969) div 4 - (y - 1901) div 100 + (y - 1601) div 400"

definition InLeapYear :: "int \<Rightarrow> bool" where
  "InLeapYear y = ((y mod 4 = 0 \<and> y mod 100 \<noteq> 0) \<or> y mod 400 = 0)"

text \<open>
  YearFromTime is the largest year whose first day is not after the given day: the
  search walks down from an estimate that is never too small.
\<close>

function year_from_day :: "int \<Rightarrow> int \<Rightarrow> int" where
  "year_from_day d y = (if DayFromYear y \<le> d then y else year_from_day d (y - 1))"
  by pat_completeness auto
termination
proof (relation "measure (\<lambda>(d, y). nat (DayFromYear y - d))")
  show "wf (measure (\<lambda>(d, y). nat (DayFromYear y - d)))" by simp
next
  fix d y :: int
  assume above: "\<not> DayFromYear y \<le> d"
  define A B C where "A = (y - 1969) div 4" and "B = (y - 1901) div 100"
    and "C = (y - 1601) div 400"
  define A' B' C' where "A' = (y - 1 - 1969) div 4" and "B' = (y - 1 - 1901) div 100"
    and "C' = (y - 1 - 1601) div 400"
  have a: "A' \<le> A"
    unfolding A_def A'_def by (rule zdiv_mono1) simp_all
  have "B - 1 = (y - 1901 - 100) div 100"
    unfolding B_def by simp
  also have "\<dots> \<le> B'"
    unfolding B'_def by (rule zdiv_mono1) simp_all
  finally have b: "B - 1 \<le> B'" .
  have c: "C' \<le> C"
    unfolding C_def C'_def by (rule zdiv_mono1) simp_all
  have "DayFromYear y = 365 * (y - 1970) + A - B + C"
    and "DayFromYear (y - 1) = 365 * (y - 1 - 1970) + A' - B' + C'"
    by (simp_all only: DayFromYear_def A_def B_def C_def A'_def B'_def C'_def)
  then have "DayFromYear (y - 1) < DayFromYear y"
    using a b c by simp
  then show "((d, y - 1), (d, y)) \<in> measure (\<lambda>(d, y). nat (DayFromYear y - d))"
    using above by simp
qed

declare year_from_day.simps [simp del]

definition YearFromTime :: "int \<Rightarrow> int" where
  "YearFromTime t =
     (let d = Day t
      in year_from_day d (1970 + (if 0 \<le> d then d div 365 else d div 366)))"

definition DayWithinYear :: "int \<Rightarrow> int" where
  "DayWithinYear t = Day t - DayFromYear (YearFromTime t)"

definition leapDays :: "int \<Rightarrow> int" where
  "leapDays y = (if InLeapYear y then 1 else 0)"

definition monthStart :: "int \<Rightarrow> int \<Rightarrow> int" where
  "monthStart l m =
     (if m = 0 then 0 else if m = 1 then 31 else if m = 2 then 59 + l
      else if m = 3 then 90 + l else if m = 4 then 120 + l else if m = 5 then 151 + l
      else if m = 6 then 181 + l else if m = 7 then 212 + l else if m = 8 then 243 + l
      else if m = 9 then 273 + l else if m = 10 then 304 + l else 334 + l)"

definition MonthFromTime :: "int \<Rightarrow> int" where
  "MonthFromTime t =
     (let dwy = DayWithinYear t; l = leapDays (YearFromTime t)
      in if dwy < 31 then 0 else if dwy < 59 + l then 1 else if dwy < 90 + l then 2
         else if dwy < 120 + l then 3 else if dwy < 151 + l then 4
         else if dwy < 181 + l then 5 else if dwy < 212 + l then 6
         else if dwy < 243 + l then 7 else if dwy < 273 + l then 8
         else if dwy < 304 + l then 9 else if dwy < 334 + l then 10 else 11)"

definition DateFromTime :: "int \<Rightarrow> int" where
  "DateFromTime t =
     DayWithinYear t - monthStart (leapDays (YearFromTime t)) (MonthFromTime t) + 1"

definition MakeDay :: "int \<Rightarrow> int \<Rightarrow> int \<Rightarrow> int" where
  "MakeDay year month date =
     (let ym = year + month div 12; mn = month mod 12
      in DayFromYear ym + monthStart (leapDays ym) mn + date - 1)"

definition MakeDate :: "int \<Rightarrow> int \<Rightarrow> int" where
  "MakeDate day time = day * msPerDay + time"

definition getMonth :: "Date \<Rightarrow> int option" where
  "getMonth d = map_option MonthFromTime (getTime d)"

definition getDate :: "Date \<Rightarrow> int option" where
  "getDate d = map_option DateFromTime (getTime d)"

definition setMonth :: "Date \<Rightarrow> int option \<Rightarrow> Date" where
  "setMonth d month =
     (case (getTime d, month) of
        (Some t, Some m) \<Rightarrow>
          Date (TimeClip (MakeDate (MakeDay (YearFromTime t) m (DateFromTime t))
                                   (TimeWithinDay t)))
      | _ \<Rightarrow> Date None)"

definition setDate :: "Date \<Rightarrow> int option \<Rightarrow> Date" where
  "setDate d date =
     (case (getTime d, date) of
        (Some t, Some dt) \<Rightarrow>
          Date (TimeClip (MakeDate (MakeDay (YearFromTime t) (MonthFromTime t) dt)
                                   (TimeWithinDay t)))
      | _ \<Rightarrow> Date None)"

text \<open>Comparison of two time values: any comparison with NaN is false.\<close>

definition num_le :: "int option \<Rightarrow> int option \<Rightarrow> bool" where
  "num_le a b = (case (a, b) of (Some x, Some y) \<Rightarrow> x \<le> y | _ \<Rightarrow> False)"

definition num_lt :: "int option \<Rightarrow> int option \<Rightarrow> bool" where
  "num_lt a b = (case (a, b) of (Some x, Some y) \<Rightarrow> x < y | _ \<Rightarrow> False)"

text \<open>
  A JavaScript number as the inactivity ladder sees it: an integer (day counts are
  results of \<open>Math.floor\<close>), positive infinity, or NaN.
\<close>

datatype number = Num int | Infinity | NaN

definition number_gt :: "number \<Rightarrow> int \<Rightarrow> bool" where
  "number_gt x k = (case x of Num n \<Rightarrow> n > k | Infinity \<Rightarrow> True | NaN \<Rightarrow> False)"



section \<open>Date utilities (src/utils/dateUtils.ts)\<close>

text \<open>
  \<open>new Date()\<close> reads the clock; the reading is the parameter \<open>now\<close>. What
  \<open>new Date(dateString)\<close> makes of a string is implementation-defined outside the ISO
  format, so the parser is a parameter: it yields a time value or NaN (\<open>None\<close>), and the
  constructor clips it to the representable range.
\<close>

type_synonym date_parser = "string \<Rightarrow> int option"

definition daysBetween :: "Date \<Rightarrow> Date \<Rightarrow> number" where
  "daysBetween date1 date2 =
     (let oneDay = 24 * 60 * 60 * 1000
      in case (getTime date1, getTime date2) of
           (Some t1, Some t2) \<Rightarrow> Num (\<bar>t2 - t1\<bar> div oneDay)
         | _ \<Rightarrow> NaN)"

definition addMonths :: "Date \<Rightarrow> int \<Rightarrow> Date" where
  "addMonths date months =
     (let result = date
      in setMonth result (map_option (\<lambda>m. m + months) (getMonth result)))"

definition addDays :: "Date \<Rightarrow> int \<Rightarrow> Date" where
  "addDays date days =
     (let result = date
      in setDate result (map_option (\<lambda>d. d + days) (getDate result)))"

definition parseDate :: "date_parser \<Rightarrow> string option \<Rightarrow> Date option" where
  "parseDate parse dateString =
     (case dateString of
        None \<Rightarrow> None
      | Some s \<Rightarrow>
          if s = [] then None
          else let parsed = Date (Option.bind (parse s) TimeClip)
               in if getTime parsed = None then None else Some parsed)"

definition calculateConsentExpiry :: "Date \<Rightarrow> int \<Rightarrow> Date" where
  "calculateConsentExpiry consentDate expiryMonths = addMonths consentDate expiryMonths"

definition isConsentExpiring :: "int \<Rightarrow> Date option \<Rightarrow> int \<Rightarrow> int \<Rightarrow> bool" where
  "isConsentExpiring now consentDate expiryMonths gracePeriodDays =
     (case consentDate of
        None \<Rightarrow> True
      | Some cd \<Rightarrow>
          let expiryDate = calculateConsentExpiry cd expiryMonths;
              gracePeriodStart = addDays (Date (Some now)) gracePeriodDays
          in num_le (getTime expiryDate) (getTime gracePeriodStart))"


section \<open>Configuration and contacts\<close>

text \<open>
  The three durations of \<open>AppConfig\<close> that the consent logic reads; \<open>getEnvNumber\<close>
  yields them through \<open>parseInt\<close>, so they are integers.
\<close>

record AppConfig =
  consentExpiryMonths :: int
  inactivityThresholdMonths :: int
  purgeGracePeriodDays :: int

text \<open>
  A CRM contact: \<open>properties\<close> maps a property name to its string value, an absent
  property being \<open>undefined\<close>. The field \<open>id\<close> of the source is \<open>hs_id\<close> here.
\<close>

record HubSpotContact =
  hs_id :: string
  properties :: "string \<rightharpoonup> string"
  createdAt :: string
  updatedAt :: string
  archived :: bool

text \<open>\<open>value || ''\<close>: an absent property reads as the empty string.\<close>

definition or_empty :: "string option \<Rightarrow> string" where
  "or_empty v = (case v of None \<Rightarrow> [] | Some s \<Rightarrow> s)"

section \<open>Inactivity (src/services/inactivityService.ts)\<close>

datatype InactivityAction =
  NO_ACTION | SEND_REMINDER | FLAG_FOR_REVIEW | SCHEDULE_PURGE | PURGE


definition determineAction :: "AppConfig \<Rightarrow> number \<Rightarrow> bool \<Rightarrow> InactivityAction" where
  "determineAction cfg daysSinceActivity inactive =
     (if \<not> inactive then NO_ACTION
      else let thresholdDays = inactivityThresholdMonths cfg * 30
           in if number_gt daysSinceActivity thresholdDays then SCHEDULE_PURGE
              else if number_gt daysSinceActivity (thresholdDays - 30) then FLAG_FOR_REVIEW
              else if number_gt daysSinceActivity (thresholdDays - 60) then SEND_REMINDER
              else NO_ACTION)"


section \<open>Consent types (src/types/consent.ts)\<close>

datatype ConsentAction = GRANTED | REVOKED | RENEWED | EXPIRED | PURGED

text \<open>
  \<open>ConsentSource\<close> is a string enum, and the routes cast request strings to it, so a
  source is a string. The identifier that \<open>uuidv4()\<close> draws is a counter value.
\<close>

record ConsentAuditRecord =
  ar_id :: nat
  ar_contactId :: string
  ar_action :: ConsentAction
  ar_category :: string
  ar_previousValue :: "bool option"
  ar_newValue :: bool
  ar_source :: string
  ar_timestamp :: Date
  ar_ipAddress :: "string option"
  ar_userAgent :: "string option"
  ar_notes :: "string option"

record Metadata =
  md_ipAddress :: "string option"
  md_userAgent :: "string option"
  md_notes :: "string option"

definition no_metadata :: Metadata where
  "no_metadata = \<lparr> md_ipAddress = None, md_userAgent = None, md_notes = None \<rparr>"

datatype ReconsentReason =
  EXPIRY | POLICY_CHANGE | CATEGORY_UPDATE | REGULATORY_REQUIREMENT | MANUAL_REQUEST

fun ReconsentReason_value :: "ReconsentReason \<Rightarrow> string" where
  "ReconsentReason_value EXPIRY = ''consent_expiry''"
| "ReconsentReason_value POLICY_CHANGE = ''policy_change''"
| "ReconsentReason_value CATEGORY_UPDATE = ''category_update''"
| "ReconsentReason_value REGULATORY_REQUIREMENT = ''regulatory_requirement''"
| "ReconsentReason_value MANUAL_REQUEST = ''manual_request''"

datatype PurgeReason = INACTIVITY | USER_REQUEST | CONSENT_WITHDRAWN | LEGAL_REQUIREMENT

fun PurgeReason_value :: "PurgeReason \<Rightarrow> string" where
  "PurgeReason_value INACTIVITY = ''inactivity_24_months''"
| "PurgeReason_value USER_REQUEST = ''user_request''"
| "PurgeReason_value CONSENT_WITHDRAWN = ''consent_withdrawn''"
| "PurgeReason_value LEGAL_REQUIREMENT = ''legal_requirement''"

record ReconsentRequest =
  rq_contactId :: string
  rq_email :: string
  rq_categories :: "string list"
  rq_reason :: ReconsentReason

section \<open>The JavaScript runtime, exceptions and the state\<close>

text \<open>
  What the services take from the runtime and cannot be derived from the source: the
  date parser, \<open>Date.prototype.toISOString\<close> on a valid time value, and the JSON codec
  of the mirrored audit log. \<open>JSON.parse\<close> throws a SyntaxError (\<open>None\<close>), or yields an
  array (of audit records, the only writer being this service) or another value.
\<close>

datatype json_value = JArray "ConsentAuditRecord list" | JOther

record runtime =
  Date_parse :: date_parser
  toISOString :: "int \<Rightarrow> string"
  JSON_parse :: "string \<Rightarrow> json_value option"
  JSON_stringify :: "ConsentAuditRecord list \<Rightarrow> string"

text \<open>A thrown value: an \<open>Error\<close> with its message, or a value that is no \<open>Error\<close>.\<close>

datatype exn = Error string | NonError

text \<open>\<open>error instanceof Error ? error.message : 'Unknown error'\<close>\<close>

definition message_of :: "exn \<Rightarrow> string" where
  "message_of error = (case error of Error m \<Rightarrow> m | NonError \<Rightarrow> ''Unknown error'')"

text \<open>
  The state threaded through the asynchronous code: the contacts of the CRM, the
  in-process audit index of \<open>ConsentAuditService\<close>, the template ids of
  \<open>TimelineEventService\<close>, and the environment. Every call to the outside is counted;
  \<open>faults\<close> says which calls fail (network, authentication, rate limit) and with what,
  \<open>clock\<close> what \<open>new Date()\<close> reads after that many calls. \<open>trace\<close> records, in
  order, the calls issued and the audit records written.
\<close>

datatype crm_op =
  GetById string | Update string | BatchUpdate "string list" | Archive string
  | DoSearch | GetPage "nat option" | TimelinePost string

datatype event = Called crm_op | AuditWritten ConsentAction string | ConsoleError

record state =
  crm :: "HubSpotContact list"
  calls :: nat
  faults :: "nat \<Rightarrow> exn option"
  clock :: "nat \<Rightarrow> int"
  auditRecords :: "string \<rightharpoonup> ConsentAuditRecord list"
  uuids :: nat
  eventTemplateIds :: "string \<rightharpoonup> string"
  trace :: "event list"

definition Date_now :: "state \<Rightarrow> int" where
  "Date_now s = clock s (calls s)"

type_synonym 'a io = "state \<Rightarrow> (exn + 'a) \<times> state"

definition return :: "'a \<Rightarrow> 'a io" where
  "return a s = (Inr a, s)"

definition await :: "'a io \<Rightarrow> ('a \<Rightarrow> 'b io) \<Rightarrow> 'b io" where
  "await m f s = (case m s of (Inl e, s') \<Rightarrow> (Inl e, s') | (Inr a, s') \<Rightarrow> f a s')"

definition try_catch :: "'a io \<Rightarrow> (exn \<Rightarrow> 'a io) \<Rightarrow> 'a io" where
  "try_catch m handler s =
     (case m s of (Inl e, s') \<Rightarrow> handler e s' | (Inr a, s') \<Rightarrow> (Inr a, s'))"

text \<open>A synchronous computation that may throw, run inside asynchronous code.\<close>

definition sync :: "exn + 'a \<Rightarrow> 'a io" where
  "sync r s = (r, s)"

definition console_error :: "unit io" where
  "console_error s = (Inr (), s\<lparr>trace := trace s @ [ConsoleError]\<rparr>)"

definition formatForHubSpot :: "runtime \<Rightarrow> Date \<Rightarrow> exn + string" where
  "formatForHubSpot rt date =
     (case getTime date of
        None \<Rightarrow> Inl (Error ''Invalid time value'')
      | Some t \<Rightarrow> Inr (toISOString rt t))"

section \<open>The CRM behind \<open>@hubspot/api-client\<close>\<close>

text \<open>
  The contact store is external; its model is a list of contacts, in the order in which
  it pages them. A read returns the requested properties only. Reading or updating an
  unknown contact fails, archiving removes the contact, a batch takes at most 100
  inputs, a search returns at most \<open>limit\<close> of the matching contacts and a cursor when
  more remain. Comparison filters compare dates; operators that the services never use
  match nothing. A cursor is the offset of the next page.
\<close>

datatype HubSpotFilterOperator =
  EQ | NEQ | LT | LTE | GT | GTE | BETWEEN | IN | NOT_IN
  | HAS_PROPERTY | NOT_HAS_PROPERTY | CONTAINS_TOKEN | NOT_CONTAINS_TOKEN

record HubSpotFilter =
  propertyName :: string
  operator :: HubSpotFilterOperator
  filter_value :: "string option"

record HubSpotFilterGroup =
  filters :: "HubSpotFilter list"

record HubSpotSearchRequest =
  filterGroups :: "HubSpotFilterGroup list"
  sr_properties :: "string list"
  limit :: nat
  after :: "nat option"

record HubSpotSearchResponse =
  total :: nat
  results :: "HubSpotContact list"
  paging_next :: "nat option"

record HubSpotBatchInput =
  bi_id :: string
  bi_properties :: "string \<rightharpoonup> string"

record ContactPage =
  pg_contacts :: "HubSpotContact list"
  pg_nextCursor :: "nat option"

definition not_found :: exn where
  "not_found = Error ''resource not found''"

definition with_properties :: "string list \<Rightarrow> HubSpotContact \<Rightarrow> HubSpotContact" where
  "with_properties names c = c\<lparr>properties := properties c |` set names\<rparr>"

definition set_properties ::
  "string \<Rightarrow> (string \<rightharpoonup> string) \<Rightarrow> HubSpotContact list \<Rightarrow> HubSpotContact list" where
  "set_properties contactId props cs =
     map (\<lambda>c. if hs_id c = contactId then c\<lparr>properties := properties c ++ props\<rparr> else c) cs"

definition store_getById ::
  "string \<Rightarrow> string list \<Rightarrow> HubSpotContact list
     \<Rightarrow> exn + HubSpotContact \<times> HubSpotContact list" where
  "store_getById contactId names cs =
     (case find (\<lambda>c. hs_id c = contactId) cs of
        None \<Rightarrow> Inl not_found
      | Some c \<Rightarrow> Inr (with_properties names c, cs))"

definition store_update ::
  "string \<Rightarrow> (string \<rightharpoonup> string) \<Rightarrow> HubSpotContact list
     \<Rightarrow> exn + HubSpotContact \<times> HubSpotContact list" where
  "store_update contactId props cs =
     (case find (\<lambda>c. hs_id c = contactId) cs of
        None \<Rightarrow> Inl not_found
      | Some c \<Rightarrow> Inr (c\<lparr>properties := properties c ++ props\<rparr>, set_properties contactId props cs))"

definition store_batchUpdate ::
  "HubSpotBatchInput list \<Rightarrow> HubSpotContact list \<Rightarrow> exn + unit \<times> HubSpotContact list" where
  "store_batchUpdate inputs cs =
     (if 100 < length inputs then Inl (Error ''batch size limit exceeded'')
      else if list_ex (\<lambda>i. find (\<lambda>c. hs_id c = bi_id i) cs = None) inputs then Inl not_found
      else Inr ((), fold (\<lambda>i. set_properties (bi_id i) (bi_properties i)) inputs cs))"

definition store_archive ::
  "string \<Rightarrow> HubSpotContact list \<Rightarrow> exn + unit \<times> HubSpotContact list" where
  "store_archive contactId cs = Inr ((), filter (\<lambda>c. hs_id c \<noteq> contactId) cs)"

definition property_date :: "date_parser \<Rightarrow> string option \<Rightarrow> int option" where
  "property_date parse v =
     (case v of None \<Rightarrow> None | Some text \<Rightarrow> Option.bind (parse text) TimeClip)"

definition filter_matches :: "date_parser \<Rightarrow> HubSpotFilter \<Rightarrow> HubSpotContact \<Rightarrow> bool" where
  "filter_matches parse f c =
     (let v = properties c (propertyName f);
          a = property_date parse v;
          b = property_date parse (filter_value f)
      in case operator f of
           EQ \<Rightarrow> v \<noteq> None \<and> v = filter_value f
         | NEQ \<Rightarrow> v \<noteq> filter_value f
         | LT \<Rightarrow> num_lt a b
         | LTE \<Rightarrow> num_le a b
         | GT \<Rightarrow> num_lt b a
         | GTE \<Rightarrow> num_le b a
         | HAS_PROPERTY \<Rightarrow> v \<noteq> None \<and> v \<noteq> Some []
         | NOT_HAS_PROPERTY \<Rightarrow> v = None \<or> v = Some []
         | _ \<Rightarrow> False)"

definition request_matches ::
  "date_parser \<Rightarrow> HubSpotSearchRequest \<Rightarrow> HubSpotContact \<Rightarrow> bool" where
  "request_matches parse req c =
     list_ex (\<lambda>g. list_all (\<lambda>f. filter_matches parse f c) (filters g)) (filterGroups req)"

definition store_search ::
  "date_parser \<Rightarrow> HubSpotSearchRequest \<Rightarrow> HubSpotContact list
     \<Rightarrow> exn + HubSpotSearchResponse \<times> HubSpotContact list" where
  "store_search parse req cs =
     (let matching = filter (request_matches parse req) cs;
          offset = (case after req of None \<Rightarrow> 0 | Some k \<Rightarrow> k)
      in Inr (\<lparr> total = length matching,
                results = map (with_properties (sr_properties req))
                              (take (limit req) (drop offset matching)),
                paging_next =
                  (if offset + limit req < length matching then Some (offset + limit req)
                   else None) \<rparr>,
              cs))"

definition store_getPage ::
  "nat \<Rightarrow> nat option \<Rightarrow> string list \<Rightarrow> HubSpotContact list
     \<Rightarrow> exn + ContactPage \<times> HubSpotContact list" where
  "store_getPage batchSize afterCursor names cs =
     (let offset = (case afterCursor of None \<Rightarrow> 0 | Some k \<Rightarrow> k)
      in Inr (\<lparr> pg_contacts = map (with_properties names) (take batchSize (drop offset cs)),
                pg_nextCursor =
                  (if offset + batchSize < length cs then Some (offset + batchSize)
                   else None) \<rparr>,
              cs))"

section \<open>The client (src/services/hubspotClientService.ts)\<close>

text \<open>
  Every method first obtains the client, which may have to fetch an access token, and
  then awaits one request; either may throw. Both are one counted call here.
\<close>

definition api ::
  "crm_op \<Rightarrow> (HubSpotContact list \<Rightarrow> exn + 'a \<times> HubSpotContact list) \<Rightarrow> 'a io" where
  "api op f s =
     (let s1 = s\<lparr>calls := calls s + 1, trace := trace s @ [Called op]\<rparr>
      in case faults s (calls s) of
           Some e \<Rightarrow> (Inl e, s1)
         | None \<Rightarrow>
             (case f (crm s) of
                Inl e \<Rightarrow> (Inl e, s1)
              | Inr (a, cs) \<Rightarrow> (Inr a, s1\<lparr>crm := cs\<rparr>)))"

definition getContact :: "string \<Rightarrow> string list \<Rightarrow> HubSpotContact io" where
  "getContact contactId names = api (GetById contactId) (store_getById contactId names)"

definition searchContacts :: "runtime \<Rightarrow> HubSpotSearchRequest \<Rightarrow> HubSpotSearchResponse io" where
  "searchContacts rt searchRequest = api DoSearch (store_search (Date_parse rt) searchRequest)"

definition updateContact :: "string \<Rightarrow> (string \<rightharpoonup> string) \<Rightarrow> HubSpotContact io" where
  "updateContact contactId props = api (Update contactId) (store_update contactId props)"

definition batchUpdateContacts :: "HubSpotBatchInput list \<Rightarrow> unit io" where
  "batchUpdateContacts inputs = api (BatchUpdate (map bi_id inputs)) (store_batchUpdate inputs)"

definition deleteContact :: "string \<Rightarrow> unit io" where
  "deleteContact contactId = api (Archive contactId) (store_archive contactId)"

definition getAllContacts :: "string list \<Rightarrow> nat \<Rightarrow> nat option \<Rightarrow> ContactPage io" where
  "getAllContacts names batchSize afterCursor =
     api (GetPage afterCursor) (store_getPage batchSize afterCursor names)"

text \<open>\<open>ConsentPropertyService.getPropertyNames()\<close>\<close>

definition getPropertyNames :: "string list" where
  "getPropertyNames =
     [''gdpr_consent_status'', ''gdpr_legal_basis'', ''gdpr_consent_date'',
      ''gdpr_consent_expiry_date'', ''gdpr_marketing_consent'', ''gdpr_analytics_consent'',
      ''gdpr_personalization_consent'', ''ccpa_opt_out'', ''last_activity_date'',
      ''reconsent_required'', ''scheduled_purge_date'', ''consent_source'',
      ''consent_audit_log'']"

text \<open>
  The pagination loop of the services:
  \<^verbatim>\<open>do { const { contacts, nextCursor: cursor } = await getAllContacts(properties, 100, nextCursor);
       ...contacts...; nextCursor = cursor; } while (nextCursor);\<close>
  with the loop body as a function of the page and of what has been collected so far.
\<close>

function paginate ::
  "string list \<Rightarrow> (state \<Rightarrow> HubSpotContact list \<Rightarrow> 'a \<Rightarrow> 'a) \<Rightarrow> nat option \<Rightarrow> 'a \<Rightarrow> 'a io" where
  "paginate names body nextCursor acc s =
     (case getAllContacts names 100 nextCursor s of
        (Inl e, s') \<Rightarrow> (Inl e, s')
      | (Inr page, s') \<Rightarrow>
          (let acc' = body s' (pg_contacts page) acc
           in case pg_nextCursor page of
                None \<Rightarrow> (Inr acc', s')
              | Some cursor \<Rightarrow> paginate names body (Some cursor) acc' s'))"
  by pat_completeness auto
termination
proof (relation "measure (\<lambda>(names, body, nextCursor, acc, s).
          length (crm s) - (case nextCursor of None \<Rightarrow> 0 | Some k \<Rightarrow> k))")
  show "wf (measure (\<lambda>(names, body, nextCursor, acc, s).
          length (crm s) - (case nextCursor of None \<Rightarrow> 0 | Some k \<Rightarrow> k)))"
    by simp
next
  fix names :: "string list" and body :: "state \<Rightarrow> HubSpotContact list \<Rightarrow> 'a \<Rightarrow> 'a"
    and nextCursor :: "nat option" and acc :: 'a and s :: state
    and x1 :: "exn + ContactPage" and s' :: state and page :: ContactPage
    and acc' :: 'a and cursor :: nat
  assume "(x1, s') = getAllContacts names 100 nextCursor s" and "x1 = Inr page"
    and "pg_nextCursor page = Some cursor"
  then show "((names, body, Some cursor, acc', s'), (names, body, nextCursor, acc, s))
      \<in> measure (\<lambda>(names, body, nextCursor, acc, s).
          length (crm s) - (case nextCursor of None \<Rightarrow> 0 | Some k \<Rightarrow> k))"
    by (auto simp: getAllContacts_def api_def store_getPage_def Let_def
        split: option.splits if_splits sum.splits)
qed

declare paginate.simps [simp del]

section \<open>Audit trail (src/services/consentAuditService.ts)\<close>

definition getAuditRecords :: "state \<Rightarrow> string \<Rightarrow> ConsentAuditRecord list" where
  "getAuditRecords s contactId =
     (case auditRecords s contactId of None \<Rightarrow> [] | Some records \<Rightarrow> records)"

text \<open>
  The body of the \<open>try\<close> block of \<open>updateHubSpotAuditLog\<close>: read the mirrored log, parse
  it (a SyntaxError is caught on the spot and gives the empty log; \<open>push\<close> on a value
  that is no array throws a TypeError), append, keep the last 100, write back.
\<close>

definition existing_log :: "runtime \<Rightarrow> HubSpotContact \<Rightarrow> exn + ConsentAuditRecord list" where
  "existing_log rt contact =
     (case properties contact ''consent_audit_log'' of
        None \<Rightarrow> Inr []
      | Some text \<Rightarrow>
          if text = [] then Inr []
          else (case JSON_parse rt text of
                  None \<Rightarrow> Inr []
                | Some (JArray records) \<Rightarrow> Inr records
                | Some JOther \<Rightarrow> Inl (Error ''existingLog.push is not a function'')))"

definition mirror_audit_log :: "runtime \<Rightarrow> string \<Rightarrow> ConsentAuditRecord \<Rightarrow> unit io" where
  "mirror_audit_log rt contactId newRecord =
     await (getContact contactId [''consent_audit_log'']) (\<lambda>contact.
     await (sync (existing_log rt contact)) (\<lambda>parsed.
       let existingLog = parsed @ [newRecord];
           existingLog = (if 100 < length existingLog
                          then drop (length existingLog - 100) existingLog
                          else existingLog)
       in await (updateContact contactId
                   [''consent_audit_log'' \<mapsto> JSON_stringify rt existingLog])
            (\<lambda>_. return ())))"

definition updateHubSpotAuditLog :: "runtime \<Rightarrow> string \<Rightarrow> ConsentAuditRecord \<Rightarrow> unit io" where
  "updateHubSpotAuditLog rt contactId newRecord =
     try_catch (mirror_audit_log rt contactId newRecord) (\<lambda>error. console_error)"

definition recordConsentChange ::
  "runtime \<Rightarrow> string \<Rightarrow> ConsentAction \<Rightarrow> string \<Rightarrow> bool option \<Rightarrow> bool \<Rightarrow> string
     \<Rightarrow> Metadata \<Rightarrow> ConsentAuditRecord io" where
  "recordConsentChange rt contactId action category previousValue newValue source metadata s =
     (let record = \<lparr> ar_id = uuids s,
                     ar_contactId = contactId,
                     ar_action = action,
                     ar_category = category,
                     ar_previousValue = previousValue,
                     ar_newValue = newValue,
                     ar_source = source,
                     ar_timestamp = Date (Some (Date_now s)),
                     ar_ipAddress = md_ipAddress metadata,
                     ar_userAgent = md_userAgent metadata,
                     ar_notes = md_notes metadata \<rparr>;
          contactRecords = getAuditRecords s contactId @ [record];
          s1 = s\<lparr> auditRecords := (auditRecords s)(contactId \<mapsto> contactRecords),
                 uuids := uuids s + 1,
                 trace := trace s @ [AuditWritten action contactId] \<rparr>
      in await (updateHubSpotAuditLog rt contactId record) (\<lambda>_. return record) s1)"

section \<open>Re-consent (src/services/reconsentWorkflowService.ts)\<close>

record ReconsentCheck =
  required :: bool
  reason :: "ReconsentReason option"
  expiryDate :: "Date option"
  daysUntilExpiry :: "number option"

text \<open>\<open>Math.ceil((expiryDate.getTime() - now.getTime()) / (1000 * 60 * 60 * 24))\<close>\<close>

definition ceil_days :: "int option \<Rightarrow> int \<Rightarrow> number" where
  "ceil_days expiry now =
     (case expiry of
        None \<Rightarrow> NaN
      | Some e \<Rightarrow> Num (- ((- (e - now)) div (1000 * 60 * 60 * 24))))"

definition checkReconsentRequired ::
  "date_parser \<Rightarrow> AppConfig \<Rightarrow> int \<Rightarrow> HubSpotContact \<Rightarrow> ReconsentCheck" where
  "checkReconsentRequired parse cfg now contact =
     (let consentDate = parseDate parse (properties contact ''gdpr_consent_date'')
      in case consentDate of
           None \<Rightarrow>
             \<lparr> required = True, reason = Some EXPIRY, expiryDate = None,
               daysUntilExpiry = None \<rparr>
         | Some cd \<Rightarrow>
             let expiry = calculateConsentExpiry cd (consentExpiryMonths cfg);
                 days = ceil_days (getTime expiry) now;
                 isExpiring = isConsentExpiring now consentDate (consentExpiryMonths cfg)
                                (purgeGracePeriodDays cfg)
             in \<lparr> required = isExpiring,
                  reason = (if isExpiring then Some EXPIRY else None),
                  expiryDate = Some expiry,
                  daysUntilExpiry = Some (if number_gt days 0 then days else Num 0) \<rparr>)"

record RequiringReconsent =
  rr_contacts :: "HubSpotContact list"
  rr_total :: nat

definition getContactsRequiringReconsent :: "runtime \<Rightarrow> AppConfig \<Rightarrow> RequiringReconsent io" where
  "getContactsRequiringReconsent rt cfg =
     await (paginate getPropertyNames
              (\<lambda>s contacts results.
                 results @ filter (\<lambda>contact.
                     required (checkReconsentRequired (Date_parse rt) cfg (Date_now s) contact))
                   contacts)
              None [])
       (\<lambda>results. return \<lparr> rr_contacts = results, rr_total = length results \<rparr>)"

definition triggerReconsentWorkflow ::
  "runtime \<Rightarrow> string \<Rightarrow> ReconsentReason \<Rightarrow> string list \<Rightarrow> ReconsentRequest io" where
  "triggerReconsentWorkflow rt contactId why categories =
     await (getContact contactId getPropertyNames) (\<lambda>contact.
     await (updateContact contactId
              [''reconsent_required'' \<mapsto> ''yes'', ''gdpr_consent_status'' \<mapsto> ''pending''])
       (\<lambda>_.
     await (recordConsentChange rt contactId EXPIRED ''all'' (Some True) False ''api''
              (no_metadata\<lparr>md_notes :=
                 Some (''Re-consent required: '' @ ReconsentReason_value why)\<rparr>))
       (\<lambda>_.
     return \<lparr> rq_contactId = contactId,
              rq_email = or_empty (properties contact ''email''),
              rq_categories = categories,
              rq_reason = why \<rparr>)))"

text \<open>
  \<^verbatim>\<open>for (let i = 0; i < batchInputs.length; i += 100) {
       const batch = batchInputs.slice(i, i + 100);
       await hubSpotClientService.batchUpdateContacts(batch); }\<close>
\<close>

function update_in_batches :: "nat \<Rightarrow> HubSpotBatchInput list \<Rightarrow> unit io" where
  "update_in_batches i batchInputs s =
     (if i < length batchInputs
      then (case batchUpdateContacts (take 100 (drop i batchInputs)) s of
              (Inl e, s') \<Rightarrow> (Inl e, s')
            | (Inr u, s') \<Rightarrow> update_in_batches (i + 100) batchInputs s')
      else (Inr (), s))"
  by pat_completeness auto
termination
  by (relation "measure (\<lambda>(i, batchInputs, s). length batchInputs - i)") auto

declare update_in_batches.simps [simp del]

definition batchTriggerReconsent ::
  "HubSpotContact list \<Rightarrow> ReconsentReason \<Rightarrow> ReconsentRequest list io" where
  "batchTriggerReconsent contacts why =
     (let batchInputs =
            map (\<lambda>contact.
                   \<lparr> bi_id = hs_id contact,
                     bi_properties = [''reconsent_required'' \<mapsto> ''yes'',
                                      ''gdpr_consent_status'' \<mapsto> ''pending''] \<rparr>)
                contacts
      in await (update_in_batches 0 batchInputs) (\<lambda>_.
           return (map (\<lambda>contact.
                          \<lparr> rq_contactId = hs_id contact,
                            rq_email = or_empty (properties contact ''email''),
                            rq_categories = [''marketing'', ''analytics'', ''personalization''],
                            rq_reason = why \<rparr>)
                       contacts)))"

record ReconsentRun =
  totalChecked :: nat
  requireReconsent :: nat
  triggered :: nat

definition runReconsentCheck :: "runtime \<Rightarrow> AppConfig \<Rightarrow> ReconsentRun io" where
  "runReconsentCheck rt cfg =
     await (getContactsRequiringReconsent rt cfg) (\<lambda>found.
       let contacts = rr_contacts found;
           needsTrigger =
             filter (\<lambda>c. properties c ''reconsent_required'' \<noteq> Some ''yes'') contacts
       in await (batchTriggerReconsent needsTrigger EXPIRY) (\<lambda>_.
            return \<lparr> totalChecked = length contacts,
                     requireReconsent = length contacts,
                     triggered = length needsTrigger \<rparr>))"

section \<open>Purge (src/services/purgeService.ts)\<close>

record PurgeOutcome =
  po_success :: bool
  po_contactId :: string
  po_reason :: PurgeReason
  po_timestamp :: Date
  po_auditRetained :: bool

definition purgeContact :: "runtime \<Rightarrow> string \<Rightarrow> PurgeReason \<Rightarrow> bool \<Rightarrow> PurgeOutcome io" where
  "purgeContact rt contactId why retainAuditLog =
     await (if retainAuditLog
            then await (recordConsentChange rt contactId PURGED ''all'' None False ''api''
                          (no_metadata\<lparr>md_notes :=
                             Some (''Contact purged: '' @ PurgeReason_value why)\<rparr>))
                   (\<lambda>_. return ())
            else return ())
       (\<lambda>_.
     await (deleteContact contactId) (\<lambda>_ s.
       return \<lparr> po_success = True,
                po_contactId = contactId,
                po_reason = why,
                po_timestamp = Date (Some (Date_now s)),
                po_auditRetained = retainAuditLog \<rparr> s))"

definition getContactsDueForPurge :: "runtime \<Rightarrow> HubSpotContact list io" where
  "getContactsDueForPurge rt s =
     await (sync (formatForHubSpot rt (Date (Some (Date_now s))))) (\<lambda>today.
     await (searchContacts rt
              \<lparr> filterGroups =
                  [\<lparr> filters = [\<lparr> propertyName = ''scheduled_purge_date'',
                                   operator = LTE,
                                   filter_value = Some today \<rparr>] \<rparr>],
                sr_properties = getPropertyNames,
                limit = 100,
                after = None \<rparr>)
       (\<lambda>response. return (results response))) s"

record PurgeResult =
  pr_contactId :: string
  pr_success :: bool
  pr_error :: "string option"

record PurgeRun =
  purged :: nat
  failed :: nat
  run_results :: "PurgeResult list"

text \<open>
  The loop that \<open>executeScheduledPurges\<close> and \<open>batchPurgeContacts\<close> both contain, over
  the ids of the contacts to purge:
  \<^verbatim>\<open>for (const contactId of contactIds) {
       try { await this.purgeContact(contactId, reason, true);
             results.push({ contactId, success: true }); purged++; }
       catch (error) {
             const errorMessage = error instanceof Error ? error.message : 'Unknown error';
             results.push({ contactId, success: false, error: errorMessage }); failed++; } }\<close>
\<close>

fun purge_each ::
  "runtime \<Rightarrow> PurgeReason \<Rightarrow> string list \<Rightarrow> PurgeRun \<Rightarrow> state \<Rightarrow> PurgeRun \<times> state" where
  "purge_each rt why [] run s = (run, s)"
| "purge_each rt why (contactId # rest) run s =
     (case purgeContact rt contactId why True s of
        (Inr outcome, s') \<Rightarrow>
          purge_each rt why rest
            (run\<lparr> run_results := run_results run @
                     [\<lparr> pr_contactId = contactId, pr_success = True, pr_error = None \<rparr>],
                  purged := purged run + 1 \<rparr>) s'
      | (Inl error, s') \<Rightarrow>
          purge_each rt why rest
            (run\<lparr> run_results := run_results run @
                     [\<lparr> pr_contactId = contactId, pr_success = False,
                        pr_error = Some (message_of error) \<rparr>],
                  failed := failed run + 1 \<rparr>) s')"

definition no_purges :: PurgeRun where
  "no_purges = \<lparr> purged = 0, failed = 0, run_results = [] \<rparr>"

definition executeScheduledPurges :: "runtime \<Rightarrow> PurgeRun io" where
  "executeScheduledPurges rt =
     await (getContactsDueForPurge rt) (\<lambda>contactsDue s.
       case purge_each rt INACTIVITY (map hs_id contactsDue) no_purges s of
         (run, s') \<Rightarrow> (Inr run, s'))"

definition batchPurgeContacts :: "runtime \<Rightarrow> string list \<Rightarrow> PurgeReason \<Rightarrow> PurgeRun io" where
  "batchPurgeContacts rt contactIds why s =
     (case purge_each rt why contactIds no_purges s of (run, s') \<Rightarrow> (Inr run, s'))"

section \<open>Dashboard (src/services/dashboardService.ts)\<close>








section \<open>Timeline events (\<open>TimelineEventService\<close>)\<close>



section \<open>Granting consent (\<open>POST /consent/contact/:contactId/grant\<close>)\<close>





section \<open>Notions used to state the properties\<close>

text \<open>Urgency of an action, and the order of day counts in which inactivity grows.\<close>

fun urgency :: "InactivityAction \<Rightarrow> nat" where
  "urgency NO_ACTION = 0"
| "urgency SEND_REMINDER = 1"
| "urgency FLAG_FOR_REVIEW = 2"
| "urgency SCHEDULE_PURGE = 3"
| "urgency PURGE = 4"

fun number_le :: "number \<Rightarrow> number \<Rightarrow> bool" where
  "number_le (Num x) (Num y) = (x \<le> y)"
| "number_le (Num x) Infinity = True"
| "number_le Infinity Infinity = True"
| "number_le _ _ = False"


text \<open>
  The events of a trace that matter to a purge: the audit records written and the
  archive calls issued, in the order in which they happened.
\<close>

fun purge_relevant :: "event \<Rightarrow> bool" where
  "purge_relevant (AuditWritten action contactId) = True"
| "purge_relevant (Called (Archive contactId)) = True"
| "purge_relevant e = False"

definition purge_events :: "state \<Rightarrow> event list" where
  "purge_events s = filter purge_relevant (trace s)"

text \<open>The steps \<open>[audit record purged written, archive call issued]\<close> of one purge.\<close>

definition purge_steps :: "string \<Rightarrow> event list" where
  "purge_steps contactId = [AuditWritten PURGED contactId, Called (Archive contactId)]"

text \<open>
  A step that leaves the audit index, the identifier supply and the environment alone,
  writes no audit record, archives nothing, and keeps the contacts of the CRM (their
  properties may change).
\<close>

definition quiet :: "state \<Rightarrow> state \<Rightarrow> bool" where
  "quiet s s' =
     (auditRecords s' = auditRecords s \<and> uuids s' = uuids s
      \<and> eventTemplateIds s' = eventTemplateIds s \<and> faults s' = faults s
      \<and> clock s' = clock s \<and> purge_events s' = purge_events s
      \<and> map hs_id (crm s') = map hs_id (crm s))"

definition purged_count :: "state \<Rightarrow> string \<Rightarrow> nat" where
  "purged_count s contactId =
     length (filter (\<lambda>r. ar_action r = PURGED) (getAuditRecords s contactId))"

text \<open>
  A contact is due for purge at \<open>now\<close> when its scheduled purge date is a date and is
  not after \<open>now\<close>.
\<close>

definition due_for_purge :: "date_parser \<Rightarrow> int \<Rightarrow> HubSpotContact \<Rightarrow> bool" where
  "due_for_purge parse now c =
     num_le (property_date parse (properties c ''scheduled_purge_date'')) (Some now)"



section \<open>Concrete inputs\<close>

text \<open>The configuration that \<open>config.ts\<close> yields when the environment sets nothing.\<close>

definition default_config :: AppConfig where
  "default_config =
     \<lparr> consentExpiryMonths = 24, inactivityThresholdMonths = 24, purgeGracePeriodDays = 30 \<rparr>"

text \<open>A parser that understands nothing, and a contact whose dates are not dates.\<close>

definition no_parse :: date_parser where
  "no_parse text = None"


text \<open>
  A runtime for the concrete runs: its parser reads nothing as a date, every date prints
  as the same text, no mirrored log parses.
\<close>

definition plain_runtime :: runtime where
  "plain_runtime =
     \<lparr> Date_parse = no_parse,
       toISOString = (\<lambda>t. ''2023-11-14T22:13:20.000Z''),
       JSON_parse = (\<lambda>text. None),
       JSON_stringify = (\<lambda>records. ''[]'') \<rparr>"

definition contact_of :: "string \<Rightarrow> HubSpotContact" where
  "contact_of contactId =
     \<lparr> hs_id = contactId, properties = Map.empty, createdAt = [], updatedAt = [],
       archived = False \<rparr>"

text \<open>A fresh process in front of a CRM with the given contacts and faults.\<close>

definition fresh :: "HubSpotContact list \<Rightarrow> (nat \<Rightarrow> exn option) \<Rightarrow> state" where
  "fresh cs fs =
     \<lparr> crm = cs, calls = 0, faults = fs, clock = (\<lambda>k. 1700000000000 + int k),
       auditRecords = Map.empty, uuids = 0, eventTemplateIds = Map.empty, trace = [] \<rparr>"

definition no_faults :: "nat \<Rightarrow> exn option" where
  "no_faults k = None"



text \<open>
  A runtime that knows three dates: the epoch, the first reading of the clock of a fresh
  process, and the day 24 months after it; it prints them as ISO texts.
\<close>

definition epoch_runtime :: runtime where
  "epoch_runtime =
     \<lparr> Date_parse = (\<lambda>text. if text = ''1970-01-01T00:00:00.000Z'' then Some 0
                              else if text = ''2023-11-14T22:13:20.000Z''
                              then Some 1700000000000
                              else if text = ''2025-11-14T22:13:20.000Z''
                              then Some 1763158400000 else None),
       toISOString = (\<lambda>t. if t = 0 then ''1970-01-01T00:00:00.000Z''
                            else if t = 1763158400000 then ''2025-11-14T22:13:20.000Z''
                            else ''2023-11-14T22:13:20.000Z''),
       JSON_parse = (\<lambda>text. None),
       JSON_stringify = (\<lambda>records. ''[]'') \<rparr>"

text \<open>101 contacts, ids 1, 11, 111, ..., all scheduled for purge at the epoch.\<close>

definition overdue_contact :: "nat \<Rightarrow> HubSpotContact" where
  "overdue_contact k =
     \<lparr> hs_id = replicate (Suc k) (CHR ''1''),
       properties = [''scheduled_purge_date'' \<mapsto> ''1970-01-01T00:00:00.000Z''],
       createdAt = [], updatedAt = [], archived = False \<rparr>"

definition overdue_crm :: "HubSpotContact list" where
  "overdue_crm = map overdue_contact [0..<101]"


section \<open>The calendar\<close>

text \<open>The first day of the next year is 365 days later, or 366 after a leap year.\<close>

lemma div_step:
  fixes x k :: int
  assumes k: "0 < k"
  shows "(x + 1) div k = x div k + (if (x + 1) mod k = 0 then 1 else 0)"
proof -
  have e: "x = k * (x div k) + x mod k" by simp
  have b: "0 \<le> x mod k" "x mod k < k" using k by simp_all
  show ?thesis
  proof (cases "x mod k + 1 = k")
    case True
    have "x + 1 = k * (x div k + 1) + 0"
      using True e by (metis add.assoc add.right_neutral distrib_left mult.right_neutral)
    then have "(x + 1) div k = x div k + 1 \<and> (x + 1) mod k = 0"
      using k int_div_pos_eq [of "x + 1" k "x div k + 1" 0]
        int_mod_pos_eq [of "x + 1" k "x div k + 1" 0]
      by simp
    then show ?thesis by simp
  next
    case False
    then have lt: "x mod k + 1 < k" using b by simp
    have "x + 1 = k * (x div k) + (x mod k + 1)" using e by simp
    then have "(x + 1) div k = x div k \<and> (x + 1) mod k = x mod k + 1"
      using lt b k int_div_pos_eq [of "x + 1" k "x div k" "x mod k + 1"]
        int_mod_pos_eq [of "x + 1" k "x div k" "x mod k + 1"]
      by simp
    then show ?thesis using b by simp
  qed
qed

lemma DayFromYear_step:
  "DayFromYear (y + 1) = DayFromYear y + (if InLeapYear y then 366 else 365)"
proof -
  have m4: "(y - 1969 + 1) mod 4 = y mod 4"
    using mod_mult_self2 [of y 4 "- 492"] by simp
  have m100: "(y - 1901 + 1) mod 100 = y mod 100"
    using mod_mult_self2 [of y 100 "- 19"] by simp
  have m400: "(y - 1601 + 1) mod 400 = y mod 400"
    using mod_mult_self2 [of y 400 "- 4"] by simp
  have a: "(y + 1 - 1969) div 4 = (y - 1969) div 4 + (if y mod 4 = 0 then 1 else 0)"
    using div_step [of 4 "y - 1969"] m4 by (simp add: algebra_simps)
  have b: "(y + 1 - 1901) div 100 = (y - 1901) div 100 + (if y mod 100 = 0 then 1 else 0)"
    using div_step [of 100 "y - 1901"] m100 by (simp add: algebra_simps)
  have c: "(y + 1 - 1601) div 400 = (y - 1601) div 400 + (if y mod 400 = 0 then 1 else 0)"
    using div_step [of 400 "y - 1601"] m400 by (simp add: algebra_simps)
  have d: "y mod 100 = 0 \<and> y mod 4 = 0" if "y mod 400 = 0"
  proof -
    have "400 dvd y" using that by (simp add: mod_eq_0_iff_dvd)
    moreover have "(100::int) dvd 400" "(4::int) dvd 400" by simp_all
    ultimately have "100 dvd y" "4 dvd y" using dvd_trans by blast+
    then show ?thesis by (simp add: mod_eq_0_iff_dvd)
  qed
  have d2: "y mod 4 = 0" if "y mod 100 = 0"
  proof -
    have "100 dvd y" using that by (simp add: mod_eq_0_iff_dvd)
    moreover have "(4::int) dvd 100" by simp
    ultimately have "4 dvd y" using dvd_trans by blast
    then show ?thesis by (simp add: mod_eq_0_iff_dvd)
  qed
  show ?thesis
    unfolding DayFromYear_def InLeapYear_def a b c using d d2 by auto
qed

text \<open>
  Setting the day of the month moves a time value by whole days: \<open>addDays\<close> adds
  86400000 ms per day.
\<close>

lemma MonthFromTime_range: "0 \<le> MonthFromTime t \<and> MonthFromTime t \<le> 11"
  by (simp add: MonthFromTime_def Let_def)

lemma MakeDay_of_time:
  "MakeDay (YearFromTime t) (MonthFromTime t) dt = Day t - DateFromTime t + dt"
proof -
  have "MonthFromTime t div 12 = 0" "MonthFromTime t mod 12 = MonthFromTime t"
    using MonthFromTime_range [of t] by simp_all
  then show ?thesis
    by (simp add: MakeDay_def DateFromTime_def DayWithinYear_def Let_def)
qed

lemma MakeDate_Day: "MakeDate (Day t + n) (TimeWithinDay t) = t + n * msPerDay"
  by (simp add: MakeDate_def Day_def TimeWithinDay_def algebra_simps)

lemma addDays_linear: "addDays (Date (Some t)) n = Date (TimeClip (t + n * msPerDay))"
  by (simp add: addDays_def setDate_def getDate_def MakeDay_of_time MakeDate_Day)


text \<open>
  \<open>YearFromTime\<close> is the largest year whose first day is not after the day of the
  time value, as ECMAScript defines it; the day within the year, the month and the date
  are in their ranges; and making a date from a year, a month and a day of the month
  that exists in every month gives back that year, month and day.
\<close>

lemma DayFromYear_1970: "DayFromYear 1970 = 0"
  by (simp add: DayFromYear_def)

lemma DayFromYear_mono_step: "DayFromYear y < DayFromYear (y + 1)"
  using DayFromYear_step [of y] by (simp split: if_splits)

lemma DayFromYear_strict_mono: "y < y' \<Longrightarrow> DayFromYear y < DayFromYear y'"
proof (induction y' rule: int_gr_induct)
  case base
  then show ?case using DayFromYear_mono_step [of y] by simp
next
  case (step i)
  then show ?case using DayFromYear_mono_step [of i] by simp
qed

lemma DayFromYear_mono: "y \<le> y' \<Longrightarrow> DayFromYear y \<le> DayFromYear y'"
  using DayFromYear_strict_mono [of y y'] by (cases "y = y'") auto

lemma DayFromYear_lower_up: "0 \<le> k \<Longrightarrow> 365 * k \<le> DayFromYear (1970 + k)"
proof (induction k rule: int_ge_induct)
  case base
  then show ?case by (simp add: DayFromYear_1970)
next
  case (step i)
  then show ?case
    using DayFromYear_step [of "1970 + i"] by (simp add: algebra_simps split: if_splits)
qed

lemma DayFromYear_lower_down: "k \<le> 0 \<Longrightarrow> 366 * k \<le> DayFromYear (1970 + k)"
proof (induction k rule: int_le_induct)
  case base
  then show ?case by (simp add: DayFromYear_1970)
next
  case (step i)
  then show ?case
    using DayFromYear_step [of "1970 + (i - 1)"] by (simp add: algebra_simps split: if_splits)
qed

lemma year_from_day_correct:
  "d < DayFromYear (y0 + 1)
   \<Longrightarrow> DayFromYear (year_from_day d y0) \<le> d \<and> d < DayFromYear (year_from_day d y0 + 1)"
proof (induction d y0 rule: year_from_day.induct)
  case (1 d y)
  show ?case
  proof (cases "DayFromYear y \<le> d")
    case True
    then show ?thesis
      using "1.prems" by (simp add: year_from_day.simps)
  next
    case False
    then have "d < DayFromYear (y - 1 + 1)"
      by simp
    then show ?thesis
      using "1.IH" [OF False] False by (simp add: year_from_day.simps)
  qed
qed

lemma year_estimate:
  "d < DayFromYear (1970 + (if 0 \<le> d then d div 365 else d div 366) + 1)"
proof (cases "0 \<le> d")
  case True
  have "d < 365 * (d div 365 + 1)"
  proof -
    define q r where "q = d div 365" and "r = d mod 365"
    have "d = 365 * q + r" "r < 365"
      by (simp_all add: q_def r_def)
    then show ?thesis
      unfolding q_def [symmetric] by simp
  qed
  moreover have "365 * (d div 365 + 1) \<le> DayFromYear (1970 + (d div 365 + 1))"
    using True by (intro DayFromYear_lower_up) (simp add: pos_imp_zdiv_nonneg_iff)
  ultimately show ?thesis
    using True by (simp add: algebra_simps)
next
  case False
  have "d < 366 * (d div 366 + 1)"
  proof -
    define q r where "q = d div 366" and "r = d mod 366"
    have "d = 366 * q + r" "r < 366"
      by (simp_all add: q_def r_def)
    then show ?thesis
      unfolding q_def [symmetric] by simp
  qed
  moreover have "d div 366 + 1 \<le> 0"
    using False by (simp add: div_neg_pos_less0 add1_zle_eq)
  then have "366 * (d div 366 + 1) \<le> DayFromYear (1970 + (d div 366 + 1))"
    by (rule DayFromYear_lower_down)
  ultimately show ?thesis
    using False by (simp add: algebra_simps)
qed

lemma YearFromTime_correct:
  "DayFromYear (YearFromTime t) \<le> Day t \<and> Day t < DayFromYear (YearFromTime t + 1)"
  unfolding YearFromTime_def Let_def using year_estimate [of "Day t"]
  by (rule year_from_day_correct)


lemma YearFromTime_largest: "DayFromYear y \<le> Day t \<longleftrightarrow> y \<le> YearFromTime t"
proof
  assume "DayFromYear y \<le> Day t"
  show "y \<le> YearFromTime t"
  proof (rule ccontr)
    assume "\<not> y \<le> YearFromTime t"
    then have "DayFromYear (YearFromTime t + 1) \<le> DayFromYear y"
      by (intro DayFromYear_mono) simp
    then show False
      using YearFromTime_correct [of t] \<open>DayFromYear y \<le> Day t\<close> by simp
  qed
next
  assume "y \<le> YearFromTime t"
  then have "DayFromYear y \<le> DayFromYear (YearFromTime t)"
    by (rule DayFromYear_mono)
  then show "DayFromYear y \<le> Day t"
    using YearFromTime_correct [of t] by simp
qed








text \<open>Evaluation of the calendar at a concrete time value.\<close>

lemmas calendar_eval =
  YearFromTime_def Day_def msPerDay_def DayFromYear_def year_from_day.simps MonthFromTime_def
  DateFromTime_def DayWithinYear_def leapDays_def InLeapYear_def monthStart_def MakeDay_def
  MakeDate_def TimeWithinDay_def TimeClip_def maxTime_def

text \<open>
  The cases of tests/utils/dateUtils.test.ts for \<open>addMonths\<close>, \<open>addDays\<close> and
  \<open>daysBetween\<close>, for dates at midnight UTC: 2024-01-15 plus 3 months is in April,
  2024-11-15 plus 3 months is in February 2025, 2024-01-28 plus 5 days is the 2nd of
  February, and nine days lie between 2024-01-01 and 2024-01-10. A day of the month that
  the target month lacks runs over into the next month: 2024-01-31 plus one month is
  2024-03-02.
\<close>

lemma addMonths_tests:
  "getMonth (addMonths (Date (Some 1705276800000)) 3) = Some 3"
  "map_option YearFromTime (getTime (addMonths (Date (Some 1731628800000)) 3)) = Some 2025"
  "getMonth (addMonths (Date (Some 1731628800000)) 3) = Some 1"
  "addMonths (Date (Some 1706659200000)) 1 = Date (Some 1709337600000)"
  by (simp_all add: addMonths_def setMonth_def getMonth_def calendar_eval)

lemma addDays_tests:
  "getDate (addDays (Date (Some 1706400000000)) 5) = Some 2"
  "getMonth (addDays (Date (Some 1706400000000)) 5) = Some 1"
  by (simp_all add: addDays_linear getDate_def getMonth_def calendar_eval)

lemma daysBetween_tests:
  "daysBetween (Date (Some 1704067200000)) (Date (Some 1704844800000)) = Num 9"
  "daysBetween (Date (Some 1704844800000)) (Date (Some 1704067200000)) = Num 9"
  "daysBetween (Date (Some 1704067200000)) (Date (Some 1704067200000)) = Num 0"
  by (simp_all add: daysBetween_def)

section \<open>The inactivity ladder\<close>

lemma urgency_determineAction:
  "urgency (determineAction cfg d inactive) =
     (if \<not> inactive then 0
      else if number_gt d (inactivityThresholdMonths cfg * 30) then 3
      else if number_gt d (inactivityThresholdMonths cfg * 30 - 30) then 2
      else if number_gt d (inactivityThresholdMonths cfg * 30 - 60) then 1 else 0)"
  by (simp add: determineAction_def Let_def)

lemma number_gt_mono: "number_le d d' \<Longrightarrow> number_gt d k \<Longrightarrow> number_gt d' k"
  by (cases d; cases d') (simp_all add: number_gt_def)

lemma number_gt_antimono: "k \<le> k' \<Longrightarrow> number_gt d k' \<Longrightarrow> number_gt d k"
  by (cases d) (simp_all add: number_gt_def)

text \<open>
  C4. \<open>determineAction\<close> returns one of the four actions no_action, send_reminder,
  flag_for_review, schedule_purge, chosen in the priority order of the ladder with
  thresholdDays = inactivityThresholdMonths * 30: no_action when the contact is not
  inactive; otherwise schedule_purge above thresholdDays, flag_for_review above
  thresholdDays - 30, send_reminder above thresholdDays - 60, else no_action. For an
  inactive contact and an integral day count the four bands are disjoint intervals. For
  a fixed inactivity flag the urgency of the action never decreases as the day count
  grows, and 700 days against a threshold of 24 months (720 days) gives flag_for_review.
\<close>

theorem determineAction_ladder:
  "determineAction cfg d inactive \<in> {NO_ACTION, SEND_REMINDER, FLAG_FOR_REVIEW, SCHEDULE_PURGE}
   \<and> determineAction cfg d False = NO_ACTION
   \<and> determineAction cfg d True =
       (if number_gt d (inactivityThresholdMonths cfg * 30) then SCHEDULE_PURGE
        else if number_gt d (inactivityThresholdMonths cfg * 30 - 30) then FLAG_FOR_REVIEW
        else if number_gt d (inactivityThresholdMonths cfg * 30 - 60) then SEND_REMINDER
        else NO_ACTION)
   \<and> (determineAction cfg (Num n) True = SCHEDULE_PURGE
        \<longleftrightarrow> inactivityThresholdMonths cfg * 30 < n)
   \<and> (determineAction cfg (Num n) True = FLAG_FOR_REVIEW
        \<longleftrightarrow> inactivityThresholdMonths cfg * 30 - 30 < n \<and> n \<le> inactivityThresholdMonths cfg * 30)
   \<and> (determineAction cfg (Num n) True = SEND_REMINDER
        \<longleftrightarrow> inactivityThresholdMonths cfg * 30 - 60 < n
            \<and> n \<le> inactivityThresholdMonths cfg * 30 - 30)
   \<and> (determineAction cfg (Num n) True = NO_ACTION
        \<longleftrightarrow> n \<le> inactivityThresholdMonths cfg * 30 - 60)
   \<and> (number_le d d' \<longrightarrow>
        urgency (determineAction cfg d inactive) \<le> urgency (determineAction cfg d' inactive))
   \<and> (inactivityThresholdMonths cfg = 24 \<longrightarrow>
        determineAction cfg (Num 700) True = FLAG_FOR_REVIEW)"
proof -
  let ?T = "inactivityThresholdMonths cfg * 30"
  have range: "determineAction cfg d inactive
      \<in> {NO_ACTION, SEND_REMINDER, FLAG_FOR_REVIEW, SCHEDULE_PURGE}"
    by (simp add: determineAction_def Let_def)
  have not_inactive: "determineAction cfg d False = NO_ACTION"
    by (simp add: determineAction_def)
  have ladder: "determineAction cfg d True =
       (if number_gt d ?T then SCHEDULE_PURGE
        else if number_gt d (?T - 30) then FLAG_FOR_REVIEW
        else if number_gt d (?T - 60) then SEND_REMINDER
        else NO_ACTION)"
    by (simp add: determineAction_def Let_def)
  have bands:
    "determineAction cfg (Num n) True = SCHEDULE_PURGE \<longleftrightarrow> ?T < n"
    "determineAction cfg (Num n) True = FLAG_FOR_REVIEW \<longleftrightarrow> ?T - 30 < n \<and> n \<le> ?T"
    "determineAction cfg (Num n) True = SEND_REMINDER \<longleftrightarrow> ?T - 60 < n \<and> n \<le> ?T - 30"
    "determineAction cfg (Num n) True = NO_ACTION \<longleftrightarrow> n \<le> ?T - 60"
    by (auto simp: determineAction_def Let_def number_gt_def)
  have mono: "urgency (determineAction cfg d inactive)
      \<le> urgency (determineAction cfg d' inactive)" if le: "number_le d d'"
  proof -
    have up: "number_gt d k \<Longrightarrow> number_gt d' k" for k
      using le by (rule number_gt_mono)
    have down: "number_gt d ?T \<Longrightarrow> number_gt d (?T - 30)"
      "number_gt d (?T - 30) \<Longrightarrow> number_gt d (?T - 60)"
      by (rule number_gt_antimono [rotated], assumption, simp)+
    show ?thesis
      unfolding urgency_determineAction using up down by auto
  qed
  have example: "determineAction cfg (Num 700) True = FLAG_FOR_REVIEW"
    if "inactivityThresholdMonths cfg = 24"
    using that by (simp add: determineAction_def number_gt_def)
  show ?thesis
    using range not_inactive ladder bands mono example by blast
qed

theorem determineAction_ladder_witness:
  "inactivityThresholdMonths default_config = 24
   \<and> number_le (Num 650) (Num 700)
   \<and> determineAction default_config (Num 700) True = FLAG_FOR_REVIEW
   \<and> urgency (determineAction default_config (Num 650) True)
       \<le> urgency (determineAction default_config (Num 700) True)"
proof -
  have months: "inactivityThresholdMonths default_config = 24"
    by (simp add: default_config_def)
  have le: "number_le (Num 650) (Num 700)"
    by simp
  note ladder = determineAction_ladder [of default_config "Num 650" True 0 "Num 700"]
  from ladder months
  have example: "determineAction default_config (Num 700) True = FLAG_FOR_REVIEW"
    by blast
  from ladder le
  have mono: "urgency (determineAction default_config (Num 650) True)
      \<le> urgency (determineAction default_config (Num 700) True)"
    by blast
  show ?thesis
    using months le example mono by blast
qed

section \<open>Consent expiry\<close>



section \<open>Unparseable timestamps\<close>











section \<open>Effects of the calls\<close>

lemma quiet_refl: "quiet s s"
  by (simp add: quiet_def)

lemma quiet_trans: "quiet s s' \<Longrightarrow> quiet s' s'' \<Longrightarrow> quiet s s''"
  by (simp add: quiet_def)

lemma map_hs_id_set_properties: "map hs_id (set_properties contactId props cs) = map hs_id cs"
  by (induction cs) (simp_all add: set_properties_def)

lemma getContact_quiet: "getContact contactId names s = (r, s') \<Longrightarrow> quiet s s'"
  by (auto simp: getContact_def api_def store_getById_def quiet_def purge_events_def Let_def
      split: option.splits)

lemma updateContact_quiet: "updateContact contactId props s = (r, s') \<Longrightarrow> quiet s s'"
  by (auto simp: updateContact_def api_def store_update_def quiet_def purge_events_def Let_def
      map_hs_id_set_properties split: option.splits)

lemma console_error_quiet: "console_error s = (r, s') \<Longrightarrow> quiet s s' \<and> r = Inr ()"
  by (auto simp: console_error_def quiet_def purge_events_def)

lemma mirror_audit_log_quiet:
  assumes "mirror_audit_log rt contactId newRecord s = (r, s')"
  shows "quiet s s'"
proof (cases "getContact contactId [''consent_audit_log''] s")
  case (Pair r1 s1)
  note q1 = getContact_quiet [OF Pair]
  show ?thesis
  proof (cases r1)
    case (Inl e)
    then show ?thesis
      using assms Pair q1 by (simp add: mirror_audit_log_def await_def)
  next
    case (Inr contact)
    show ?thesis
    proof (cases "existing_log rt contact")
      case (Inl e)
      then show ?thesis
        using assms Pair \<open>r1 = Inr contact\<close> q1
        by (simp add: mirror_audit_log_def await_def sync_def)
    next
      case parsed: (Inr parsed)
      define kept where "kept =
        (if 100 < length (parsed @ [newRecord])
         then drop (length (parsed @ [newRecord]) - 100) (parsed @ [newRecord])
         else parsed @ [newRecord])"
      obtain r2 s2 where upd: "updateContact contactId
          [''consent_audit_log'' \<mapsto> JSON_stringify rt kept] s1 = (r2, s2)"
        by (cases "updateContact contactId
          [''consent_audit_log'' \<mapsto> JSON_stringify rt kept] s1") auto
      have "s' = s2"
        using assms Pair \<open>r1 = Inr contact\<close> parsed upd
        by (auto simp: mirror_audit_log_def await_def sync_def Let_def kept_def return_def
            split: sum.splits)
      then show ?thesis
        using q1 updateContact_quiet [OF upd] quiet_trans by blast
    qed
  qed
qed

lemma updateHubSpotAuditLog_caught:
  "\<exists>s'. updateHubSpotAuditLog rt contactId newRecord s = (Inr (), s') \<and> quiet s s'"
proof (cases "mirror_audit_log rt contactId newRecord s")
  case (Pair r s1)
  note q1 = mirror_audit_log_quiet [OF Pair]
  show ?thesis
  proof (cases r)
    case (Inl e)
    obtain r2 s2 where c: "console_error s1 = (r2, s2)"
      by (cases "console_error s1") auto
    then have "updateHubSpotAuditLog rt contactId newRecord s = (Inr (), s2)"
      using Pair Inl console_error_quiet [OF c]
      by (simp add: updateHubSpotAuditLog_def try_catch_def)
    then show ?thesis
      using q1 console_error_quiet [OF c] quiet_trans by blast
  next
    case (Inr u)
    then show ?thesis
      using Pair q1 by (simp add: updateHubSpotAuditLog_def try_catch_def)
  qed
qed

lemma recordConsentChange_effect:
  "\<exists>record s'.
     recordConsentChange rt contactId action category previousValue newValue source metadata s
       = (Inr record, s')
     \<and> record = \<lparr> ar_id = uuids s, ar_contactId = contactId, ar_action = action,
                   ar_category = category, ar_previousValue = previousValue,
                   ar_newValue = newValue, ar_source = source,
                   ar_timestamp = Date (Some (Date_now s)),
                   ar_ipAddress = md_ipAddress metadata, ar_userAgent = md_userAgent metadata,
                   ar_notes = md_notes metadata \<rparr>
     \<and> auditRecords s' = (auditRecords s)(contactId \<mapsto> getAuditRecords s contactId @ [record])
     \<and> uuids s' = uuids s + 1
     \<and> purge_events s' = purge_events s @ [AuditWritten action contactId]
     \<and> map hs_id (crm s') = map hs_id (crm s)
     \<and> faults s' = faults s \<and> clock s' = clock s
     \<and> eventTemplateIds s' = eventTemplateIds s"
proof -
  define entry where "entry =
    \<lparr> ar_id = uuids s, ar_contactId = contactId, ar_action = action,
      ar_category = category, ar_previousValue = previousValue,
      ar_newValue = newValue, ar_source = source,
      ar_timestamp = Date (Some (Date_now s)),
      ar_ipAddress = md_ipAddress metadata, ar_userAgent = md_userAgent metadata,
      ar_notes = md_notes metadata \<rparr>"
  define s1 where "s1 =
    s\<lparr> auditRecords := (auditRecords s)(contactId \<mapsto> getAuditRecords s contactId @ [entry]),
       uuids := uuids s + 1,
       trace := trace s @ [AuditWritten action contactId] \<rparr>"
  obtain s' where m: "updateHubSpotAuditLog rt contactId entry s1 = (Inr (), s')"
    and q: "quiet s1 s'"
    using updateHubSpotAuditLog_caught [of rt contactId entry s1] by blast
  have "recordConsentChange rt contactId action category previousValue newValue source
          metadata s = (Inr entry, s')"
    using m by (simp add: recordConsentChange_def Let_def entry_def s1_def await_def return_def)
  moreover have "auditRecords s' = (auditRecords s)(contactId \<mapsto> getAuditRecords s contactId @ [entry])"
    "uuids s' = uuids s + 1" "purge_events s' = purge_events s @ [AuditWritten action contactId]"
    "map hs_id (crm s') = map hs_id (crm s)" "faults s' = faults s" "clock s' = clock s"
    "eventTemplateIds s' = eventTemplateIds s"
    using q by (simp_all add: quiet_def s1_def purge_events_def)
  ultimately show ?thesis
    unfolding entry_def by blast
qed

section \<open>The audit trail survives a failing mirror\<close>

lemma mirror_can_fail:
  "faults s (calls s) = Some e \<Longrightarrow> fst (mirror_audit_log rt contactId newRecord s) = Inl e"
  by (simp add: mirror_audit_log_def await_def getContact_def api_def Let_def)

lemma mirror_fails_without_contact:
  "faults s (calls s) = None \<Longrightarrow> find (\<lambda>c. hs_id c = contactId) (crm s) = None
     \<Longrightarrow> fst (mirror_audit_log rt contactId newRecord s) = Inl not_found"
  by (simp add: mirror_audit_log_def await_def getContact_def api_def Let_def store_getById_def)

text \<open>
  C7. \<open>recordConsentChange\<close> returns normally in every state, whatever calls to the
  outside fail: a failure of the mirror write is caught inside \<open>updateHubSpotAuditLog\<close>
  and does not reach the caller. The record it returns carries the arguments, and it is
  the one appended to the in-process log of the contact.
\<close>

theorem recordConsentChange_never_throws:
  "\<exists>record s'.
     recordConsentChange rt contactId action category previousValue newValue source metadata s
       = (Inr record, s')
     \<and> ar_contactId record = contactId \<and> ar_action record = action
     \<and> ar_category record = category \<and> ar_previousValue record = previousValue
     \<and> ar_newValue record = newValue \<and> ar_source record = source
     \<and> ar_timestamp record = Date (Some (Date_now s))
     \<and> ar_ipAddress record = md_ipAddress metadata
     \<and> ar_userAgent record = md_userAgent metadata
     \<and> ar_notes record = md_notes metadata
     \<and> getAuditRecords s' contactId = getAuditRecords s contactId @ [record]
     \<and> auditRecords s' = (auditRecords s)(contactId \<mapsto> getAuditRecords s contactId @ [record])"
proof -
  obtain entry s' where
    ret: "recordConsentChange rt contactId action category previousValue newValue source
            metadata s = (Inr entry, s')"
    and fields: "entry = \<lparr> ar_id = uuids s, ar_contactId = contactId, ar_action = action,
                   ar_category = category, ar_previousValue = previousValue,
                   ar_newValue = newValue, ar_source = source,
                   ar_timestamp = Date (Some (Date_now s)),
                   ar_ipAddress = md_ipAddress metadata, ar_userAgent = md_userAgent metadata,
                   ar_notes = md_notes metadata \<rparr>"
    and log: "auditRecords s' = (auditRecords s)(contactId \<mapsto> getAuditRecords s contactId @ [entry])"
    using recordConsentChange_effect
      [of rt contactId action category previousValue newValue source metadata s]
    by blast
  have "getAuditRecords s' contactId = getAuditRecords s contactId @ [entry]"
    using log by (simp add: getAuditRecords_def)
  then show ?thesis
    using ret fields log by simp
qed

section \<open>Purging\<close>

lemma deleteContact_effect:
  assumes "deleteContact contactId s = (r, s')"
  shows "auditRecords s' = auditRecords s \<and> uuids s' = uuids s \<and> faults s' = faults s
     \<and> clock s' = clock s \<and> eventTemplateIds s' = eventTemplateIds s
     \<and> purge_events s' = purge_events s @ [Called (Archive contactId)]
     \<and> (case r of
           Inr u \<Rightarrow> crm s' = filter (\<lambda>c. hs_id c \<noteq> contactId) (crm s)
                      \<and> faults s (calls s) = None
         | Inl e \<Rightarrow> crm s' = crm s \<and> faults s (calls s) = Some e)"
  using assms
  by (auto simp: deleteContact_def api_def store_archive_def purge_events_def Let_def
      split: option.splits)

lemma purged_count_append:
  "auditRecords s' = (auditRecords s)(contactId \<mapsto> getAuditRecords s contactId @ [entry])
   \<Longrightarrow> ar_action entry = PURGED
   \<Longrightarrow> purged_count s' c = purged_count s c + (if c = contactId then 1 else 0)"
  by (simp add: purged_count_def getAuditRecords_def)

lemma purgeContact_retained:
  assumes "purgeContact rt contactId why True s = (r, s')"
  shows "purge_events s' = purge_events s @ purge_steps contactId
     \<and> (\<forall>c. purged_count s' c = purged_count s c + (if c = contactId then 1 else 0))
     \<and> set (map hs_id (crm s')) \<subseteq> set (map hs_id (crm s))
     \<and> (case r of Inr outcome \<Rightarrow> contactId \<notin> set (map hs_id (crm s')) | Inl e \<Rightarrow> True)"
proof -
  let ?md = "no_metadata\<lparr>md_notes := Some (''Contact purged: '' @ PurgeReason_value why)\<rparr>"
  obtain entry s1 where
    rec: "recordConsentChange rt contactId PURGED ''all'' None False ''api'' ?md s
            = (Inr entry, s1)"
    and act: "ar_action entry = PURGED"
    and log: "auditRecords s1 = (auditRecords s)(contactId \<mapsto> getAuditRecords s contactId @ [entry])"
    and ev: "purge_events s1 = purge_events s @ [AuditWritten PURGED contactId]"
    and ids: "map hs_id (crm s1) = map hs_id (crm s)"
    using recordConsentChange_effect [of rt contactId PURGED "''all''" None False "''api''" ?md s]
    by auto
  obtain r2 s2 where del: "deleteContact contactId s1 = (r2, s2)"
    by (cases "deleteContact contactId s1") auto
  note d = deleteContact_effect [OF del]
  have s': "s' = s2" and r: "(case r of Inr outcome \<Rightarrow> \<exists>u. r2 = Inr u | Inl e \<Rightarrow> r2 = Inl e)"
    using assms rec del
    by (auto simp: purgeContact_def await_def return_def split: sum.splits)
  have count: "purged_count s2 c = purged_count s c + (if c = contactId then 1 else 0)" for c
  proof -
    have "purged_count s2 c = purged_count s1 c"
      using d by (simp add: purged_count_def getAuditRecords_def)
    then show ?thesis
      using purged_count_append [OF log act] by simp
  qed
  have sub: "set (map hs_id (crm s2)) \<subseteq> set (map hs_id (crm s))"
    using d ids [symmetric] by (cases r2) auto
  have gone: "contactId \<notin> set (map hs_id (crm s2))" if "r2 = Inr u" for u
    using d that by auto
  have events: "purge_events s2 = purge_events s @ purge_steps contactId"
    using d ev by (simp add: purge_steps_def)
  have absent: "case r of Inr outcome \<Rightarrow> contactId \<notin> set (map hs_id (crm s2)) | Inl e \<Rightarrow> True"
    using r gone by (cases r) auto
  show ?thesis
    unfolding s' using events count sub absent by blast
qed


lemma purgeContact_not_retained:
  assumes "purgeContact rt contactId why False s = (r, s')"
  shows "purge_events s' = purge_events s @ [Called (Archive contactId)]"
proof -
  obtain r2 s2 where del: "deleteContact contactId s = (r2, s2)"
    by (cases "deleteContact contactId s") auto
  have "s' = s2"
    using assms del by (auto simp: purgeContact_def await_def return_def split: sum.splits)
  then show ?thesis
    using deleteContact_effect [OF del] by simp
qed

text \<open>One round of the purge loop, with the entry that it pushes.\<close>

lemma purge_each_step:
  assumes "purge_each rt why (contactId # rest) run s = (run', s')"
  obtains r s1 entry run1 where
    "purgeContact rt contactId why True s = (r, s1)"
    "purge_each rt why rest run1 s1 = (run', s')"
    "run_results run1 = run_results run @ [entry]"
    "pr_contactId entry = contactId"
    "pr_success entry = (pr_error entry = None)"
    "pr_success entry = (\<exists>outcome. r = Inr outcome)"
    "purged run1 = purged run + (if pr_success entry then 1 else 0)"
    "failed run1 = failed run + (if pr_success entry then 0 else 1)"
proof -
  obtain r s1 where one: "purgeContact rt contactId why True s = (r, s1)"
    by (cases "purgeContact rt contactId why True s") auto
  show ?thesis
  proof (cases r)
    case (Inl error)
    let ?entry = "\<lparr> pr_contactId = contactId, pr_success = False,
                     pr_error = Some (message_of error) \<rparr>"
    let ?run1 = "run\<lparr> run_results := run_results run @ [?entry], failed := failed run + 1 \<rparr>"
    have "purge_each rt why rest ?run1 s1 = (run', s')"
      using assms one Inl by simp
    then show ?thesis
      using one Inl that [of r s1 ?run1 ?entry] by simp
  next
    case (Inr outcome)
    let ?entry = "\<lparr> pr_contactId = contactId, pr_success = True, pr_error = None \<rparr>"
    let ?run1 = "run\<lparr> run_results := run_results run @ [?entry], purged := purged run + 1 \<rparr>"
    have "purge_each rt why rest ?run1 s1 = (run', s')"
      using assms one Inr by simp
    then show ?thesis
      using one Inr that [of r s1 ?run1 ?entry] by simp
  qed
qed

lemma purge_each_events:
  "purge_each rt why ids run s = (run', s')
     \<Longrightarrow> purge_events s' = purge_events s @ concat (map purge_steps ids)"
proof (induction ids arbitrary: run s)
  case Nil
  then show ?case by simp
next
  case (Cons contactId rest)
  from Cons.prems obtain r s1 run1 where
    one: "purgeContact rt contactId why True s = (r, s1)"
    and step: "purge_each rt why rest run1 s1 = (run', s')"
    by (rule purge_each_step)
  have "purge_events s1 = purge_events s @ purge_steps contactId"
    using purgeContact_retained [OF one] by (rule conjunct1)
  then show ?case
    using Cons.IH [OF step] by simp
qed


lemma purge_each_contacts:
  "purge_each rt why ids run s = (run', s')
     \<Longrightarrow> set (map hs_id (crm s')) \<subseteq> set (map hs_id (crm s))"
proof (induction ids arbitrary: run s)
  case Nil
  then show ?case by simp
next
  case (Cons contactId rest)
  from Cons.prems obtain r s1 run1 where
    one: "purgeContact rt contactId why True s = (r, s1)"
    and step: "purge_each rt why rest run1 s1 = (run', s')"
    by (rule purge_each_step)
  have "set (map hs_id (crm s1)) \<subseteq> set (map hs_id (crm s))"
    using purgeContact_retained [OF one] by (rule conjunct2 [THEN conjunct2, THEN conjunct1])
  then show ?case
    using Cons.IH [OF step] by (rule order_trans [rotated])
qed

lemma purge_each_results:
  "purge_each rt why ids run s = (run', s')
     \<Longrightarrow> \<exists>new. run_results run' = run_results run @ new
           \<and> map pr_contactId new = ids
           \<and> purged run' = purged run + length (filter pr_success new)
           \<and> failed run' = failed run + length (filter (\<lambda>r. \<not> pr_success r) new)
           \<and> list_all (\<lambda>r. pr_success r = (pr_error r = None)) new
           \<and> list_all (\<lambda>r. pr_success r \<longrightarrow> pr_contactId r \<notin> set (map hs_id (crm s'))) new"
proof (induction ids arbitrary: run s)
  case Nil
  then show ?case by simp
next
  case (Cons contactId rest)
  from Cons.prems obtain r s1 entry run1 where
    one: "purgeContact rt contactId why True s = (r, s1)"
    and step: "purge_each rt why rest run1 s1 = (run', s')"
    and run1: "run_results run1 = run_results run @ [entry]"
      "pr_contactId entry = contactId"
      "pr_success entry = (pr_error entry = None)"
      "purged run1 = purged run + (if pr_success entry then 1 else 0)"
      "failed run1 = failed run + (if pr_success entry then 0 else 1)"
    and ok: "pr_success entry = (\<exists>outcome. r = Inr outcome)"
    by (rule purge_each_step)
  from Cons.IH [OF step] obtain new where all:
    "run_results run' = run_results run1 @ new
     \<and> map pr_contactId new = rest
     \<and> purged run' = purged run1 + length (filter pr_success new)
     \<and> failed run' = failed run1 + length (filter (\<lambda>r. \<not> pr_success r) new)
     \<and> list_all (\<lambda>r. pr_success r = (pr_error r = None)) new
     \<and> list_all (\<lambda>r. pr_success r \<longrightarrow> pr_contactId r \<notin> set (map hs_id (crm s'))) new"
    ..
  then have new:
    "run_results run' = run_results run1 @ new" "map pr_contactId new = rest"
    "purged run' = purged run1 + length (filter pr_success new)"
    "failed run' = failed run1 + length (filter (\<lambda>r. \<not> pr_success r) new)"
    "list_all (\<lambda>r. pr_success r = (pr_error r = None)) new"
    "list_all (\<lambda>r. pr_success r \<longrightarrow> pr_contactId r \<notin> set (map hs_id (crm s'))) new"
    by simp_all
  have gone: "contactId \<notin> set (map hs_id (crm s'))" if "pr_success entry"
  proof -
    from that ok obtain outcome where "r = Inr outcome"
      by blast
    then have "contactId \<notin> set (map hs_id (crm s1))"
      using purgeContact_retained [OF one] by simp
    then show ?thesis
      using purge_each_contacts [OF step] by blast
  qed
  have "run_results run' = run_results run @ (entry # new)"
    using new(1) run1(1) by simp
  moreover have "map pr_contactId (entry # new) = contactId # rest"
    using new(2) run1(2) by simp
  moreover have "purged run' = purged run + length (filter pr_success (entry # new))"
    using new(3) run1(4) by simp
  moreover have "failed run' = failed run + length (filter (\<lambda>r. \<not> pr_success r) (entry # new))"
    using new(4) run1(5) by simp
  moreover have "list_all (\<lambda>r. pr_success r = (pr_error r = None)) (entry # new)"
    using new(5) run1(3) by simp
  moreover have "list_all (\<lambda>r. pr_success r \<longrightarrow> pr_contactId r \<notin> set (map hs_id (crm s')))
      (entry # new)"
    using new(6) run1(2) gone by simp
  ultimately show ?case
    by (intro exI [of _ "entry # new"] conjI)
qed

lemma searchContacts_quiet: "searchContacts rt request s = (r, s') \<Longrightarrow> quiet s s'"
  by (auto simp: searchContacts_def api_def store_search_def quiet_def purge_events_def Let_def
      split: option.splits)

lemma getContactsDueForPurge_quiet:
  assumes "getContactsDueForPurge rt s = (r, s')"
  shows "quiet s s'"
proof -
  let ?request = "\<lparr> filterGroups =
        [\<lparr> filters = [\<lparr> propertyName = ''scheduled_purge_date'', operator = LTE,
                         filter_value = Some (toISOString rt (Date_now s)) \<rparr>] \<rparr>],
      sr_properties = getPropertyNames, limit = 100, after = None \<rparr>"
  obtain r1 s1 where search: "searchContacts rt ?request s = (r1, s1)"
    by (cases "searchContacts rt ?request s") auto
  have "s' = s1"
    using assms search
    by (auto simp: getContactsDueForPurge_def formatForHubSpot_def await_def sync_def
        return_def split: sum.splits)
  then show ?thesis
    using searchContacts_quiet [OF search] by simp
qed

lemma batchPurgeContacts_run:
  "\<exists>run s'. batchPurgeContacts rt contactIds why s = (Inr run, s')
     \<and> purge_each rt why contactIds no_purges s = (run, s')"
  by (cases "purge_each rt why contactIds no_purges s") (simp add: batchPurgeContacts_def)

lemma executeScheduledPurges_cases:
  obtains (search_failed) e s' where
      "executeScheduledPurges rt s = (Inl e, s')" "quiet s s'"
  | (purged) contactsDue s1 run s' where
      "getContactsDueForPurge rt s = (Inr contactsDue, s1)" "quiet s s1"
      "purge_each rt INACTIVITY (map hs_id contactsDue) no_purges s1 = (run, s')"
      "executeScheduledPurges rt s = (Inr run, s')"
proof -
  obtain r s1 where due: "getContactsDueForPurge rt s = (r, s1)"
    by (cases "getContactsDueForPurge rt s") auto
  note q = getContactsDueForPurge_quiet [OF due]
  show ?thesis
  proof (cases r)
    case (Inl e)
    then have "executeScheduledPurges rt s = (Inl e, s1)"
      using due by (simp add: executeScheduledPurges_def await_def)
    then show ?thesis
      using q by (rule search_failed)
  next
    case (Inr contactsDue)
    obtain run s' where
      each: "purge_each rt INACTIVITY (map hs_id contactsDue) no_purges s1 = (run, s')"
      by (cases "purge_each rt INACTIVITY (map hs_id contactsDue) no_purges s1") auto
    then have "executeScheduledPurges rt s = (Inr run, s')"
      using due Inr by (simp add: executeScheduledPurges_def await_def)
    then show ?thesis
      using due Inr q each purged by blast
  qed
qed

text \<open>
  C1. Of the events of a purge, keep the audit records written and the archive calls
  issued. \<open>purgeContact\<close> with audit retention adds exactly the \<open>purged\<close> audit record
  of the contact and then the archive call for it (and, when retention is opted out, the
  archive call alone); \<open>batchPurgeContacts\<close> and \<open>executeScheduledPurges\<close> add
  exactly that pair for each contact they process, in order. So every archive call
  comes directly after the \<open>purged\<close> audit record of its contact, whatever fails.
\<close>

theorem audit_before_delete:
  "purge_events (snd (purgeContact rt contactId why True s))
     = purge_events s @ [AuditWritten PURGED contactId, Called (Archive contactId)]
   \<and> purge_events (snd (purgeContact rt contactId why False s))
     = purge_events s @ [Called (Archive contactId)]
   \<and> purge_events (snd (batchPurgeContacts rt contactIds why s))
     = purge_events s @ concat (map purge_steps contactIds)
   \<and> (case executeScheduledPurges rt s of
         (Inl e, s') \<Rightarrow> purge_events s' = purge_events s
       | (Inr run, s') \<Rightarrow>
           purge_events s'
             = purge_events s @ concat (map purge_steps (map pr_contactId (run_results run))))"
proof -
  have one: "purge_events (snd (purgeContact rt contactId why True s))
      = purge_events s @ [AuditWritten PURGED contactId, Called (Archive contactId)]"
    using purgeContact_retained [of rt contactId why s]
    by (cases "purgeContact rt contactId why True s") (simp add: purge_steps_def)
  have opted_out: "purge_events (snd (purgeContact rt contactId why False s))
      = purge_events s @ [Called (Archive contactId)]"
    using purgeContact_not_retained [of rt contactId why s]
    by (cases "purgeContact rt contactId why False s") simp
  have batch: "purge_events (snd (batchPurgeContacts rt contactIds why s))
      = purge_events s @ concat (map purge_steps contactIds)"
  proof -
    obtain run s' where "batchPurgeContacts rt contactIds why s = (Inr run, s')"
      and "purge_each rt why contactIds no_purges s = (run, s')"
      using batchPurgeContacts_run by blast
    then show ?thesis
      using purge_each_events by simp
  qed
  have scheduled: "case executeScheduledPurges rt s of
         (Inl e, s') \<Rightarrow> purge_events s' = purge_events s
       | (Inr run, s') \<Rightarrow>
           purge_events s'
             = purge_events s @ concat (map purge_steps (map pr_contactId (run_results run)))"
  proof (cases rule: executeScheduledPurges_cases [of rt s])
    case (search_failed e s')
    then show ?thesis by (simp add: quiet_def)
  next
    case (purged contactsDue s1 run s')
    have "map pr_contactId (run_results run) = map hs_id contactsDue"
      using purge_each_results [OF purged(3)] by (auto simp: no_purges_def)
    then show ?thesis
      using purged purge_each_events [OF purged(3)] by (simp add: quiet_def)
  qed
  show ?thesis
    using one opted_out batch scheduled by blast
qed




section \<open>The re-consent run\<close>

lemma getAllContacts_quiet: "getAllContacts names batchSize cursor s = (r, s') \<Longrightarrow> quiet s s'"
  by (auto simp: getAllContacts_def api_def store_getPage_def quiet_def purge_events_def Let_def
      split: option.splits)

lemma paginate_quiet: "paginate names body cursor acc s = (r, s') \<Longrightarrow> quiet s s'"
proof (induction names body cursor acc s arbitrary: r s' rule: paginate.induct)
  case (1 names body nextCursor acc s)
  obtain r1 s1 where page: "getAllContacts names 100 nextCursor s = (r1, s1)"
    by (cases "getAllContacts names 100 nextCursor s") auto
  note q1 = getAllContacts_quiet [OF page]
  show ?case
  proof (cases r1)
    case (Inl e)
    then have "s' = s1"
      using "1.prems" page by (simp add: paginate.simps)
    then show ?thesis using q1 by simp
  next
    case (Inr p)
    show ?thesis
    proof (cases "pg_nextCursor p")
      case None
      then have "s' = s1"
        using "1.prems" page Inr by (simp add: paginate.simps)
      then show ?thesis using q1 by simp
    next
      case (Some cursor)
      then have "paginate names body (Some cursor) (body s1 (pg_contacts p) acc) s1 = (r, s')"
        using "1.prems" page Inr by (simp add: paginate.simps)
      then have "quiet s1 s'"
        using "1.IH" [OF page [symmetric] Inr refl Some] by simp
      then show ?thesis
        using q1 quiet_trans by blast
    qed
  qed
qed

lemma map_hs_id_fold_set_properties:
  "map hs_id (fold (\<lambda>i. set_properties (bi_id i) (bi_properties i)) inputs cs) = map hs_id cs"
  by (induction inputs arbitrary: cs) (simp_all add: map_hs_id_set_properties)

lemma batchUpdateContacts_quiet: "batchUpdateContacts inputs s = (r, s') \<Longrightarrow> quiet s s'"
  by (auto simp: batchUpdateContacts_def api_def store_batchUpdate_def quiet_def
      purge_events_def Let_def map_hs_id_fold_set_properties split: option.splits if_splits)

lemma update_in_batches_quiet: "update_in_batches i batchInputs s = (r, s') \<Longrightarrow> quiet s s'"
proof (induction i batchInputs s arbitrary: r s' rule: update_in_batches.induct)
  case (1 i batchInputs s)
  show ?case
  proof (cases "i < length batchInputs")
    case False
    then show ?thesis
      using "1.prems" by (simp add: update_in_batches.simps quiet_refl)
  next
    case True
    obtain r1 s1 where one: "batchUpdateContacts (take 100 (drop i batchInputs)) s = (r1, s1)"
      by (cases "batchUpdateContacts (take 100 (drop i batchInputs)) s") auto
    note q1 = batchUpdateContacts_quiet [OF one]
    show ?thesis
    proof (cases r1)
      case (Inl e)
      then have "s' = s1"
        using "1.prems" True one by (simp add: update_in_batches.simps)
      then show ?thesis using q1 by simp
    next
      case (Inr u)
      then have "update_in_batches (i + 100) batchInputs s1 = (r, s')"
        using "1.prems" True one by (simp add: update_in_batches.simps)
      then have "quiet s1 s'"
        using "1.IH" [OF True one [symmetric] Inr] by simp
      then show ?thesis
        using q1 quiet_trans by blast
    qed
  qed
qed

lemma batchTriggerReconsent_quiet:
  assumes "batchTriggerReconsent contacts why s = (r, s')"
  shows "quiet s s'"
proof -
  let ?inputs = "map (\<lambda>contact.
      \<lparr> bi_id = hs_id contact,
        bi_properties = [''reconsent_required'' \<mapsto> ''yes'',
                         ''gdpr_consent_status'' \<mapsto> ''pending''] \<rparr>) contacts"
  obtain r1 s1 where upd: "update_in_batches 0 ?inputs s = (r1, s1)"
    by (cases "update_in_batches 0 ?inputs s") auto
  have "s' = s1"
    using assms upd
    by (auto simp: batchTriggerReconsent_def await_def return_def Let_def split: sum.splits)
  then show ?thesis
    using update_in_batches_quiet [OF upd] by simp
qed

lemma runReconsentCheck_quiet:
  assumes "runReconsentCheck rt cfg s = (r, s')"
  shows "quiet s s'"
proof -
  let ?body = "\<lambda>s contacts results.
      results @ filter (\<lambda>contact.
          required (checkReconsentRequired (Date_parse rt) cfg (Date_now s) contact)) contacts"
  obtain r1 s1 where pages: "paginate getPropertyNames ?body None [] s = (r1, s1)"
    by (cases "paginate getPropertyNames ?body None [] s") auto
  note q1 = paginate_quiet [OF pages]
  show ?thesis
  proof (cases r1)
    case (Inl e)
    then have "s' = s1"
      using assms pages
      by (simp add: runReconsentCheck_def getContactsRequiringReconsent_def await_def)
    then show ?thesis using q1 by simp
  next
    case (Inr found)
    let ?needsTrigger = "filter (\<lambda>c. properties c ''reconsent_required'' \<noteq> Some ''yes'') found"
    obtain r2 s2 where trig: "batchTriggerReconsent ?needsTrigger EXPIRY s1 = (r2, s2)"
      by (cases "batchTriggerReconsent ?needsTrigger EXPIRY s1") auto
    have "s' = s2"
      using assms pages Inr trig
      by (auto simp: runReconsentCheck_def getContactsRequiringReconsent_def await_def
          return_def Let_def split: sum.splits)
    then show ?thesis
      using q1 batchTriggerReconsent_quiet [OF trig] quiet_trans by blast
  qed
qed

text \<open>
  The single-contact path, \<open>triggerReconsentWorkflow\<close>, does write the \<open>expired\<close>
  audit record after its update.
\<close>

lemma triggerReconsentWorkflow_audits:
  assumes "triggerReconsentWorkflow rt contactId why categories s = (Inr request, s')"
  shows "\<exists>entry. getAuditRecords s' contactId = getAuditRecords s contactId @ [entry]
     \<and> ar_action entry = EXPIRED"
proof -
  let ?props = "[''reconsent_required'' \<mapsto> ''yes'', ''gdpr_consent_status'' \<mapsto> ''pending'']"
  let ?md = "no_metadata\<lparr>md_notes :=
      Some (''Re-consent required: '' @ ReconsentReason_value why)\<rparr>"
  obtain r1 s1 where get: "getContact contactId getPropertyNames s = (r1, s1)"
    by (cases "getContact contactId getPropertyNames s") auto
  obtain r2 s2 where upd: "updateContact contactId ?props s1 = (r2, s2)"
    by (cases "updateContact contactId ?props s1") auto
  obtain entry s3 where
    rec: "recordConsentChange rt contactId EXPIRED ''all'' (Some True) False ''api'' ?md s2
            = (Inr entry, s3)"
    and act: "ar_action entry = EXPIRED"
    and log: "auditRecords s3 = (auditRecords s2)(contactId \<mapsto> getAuditRecords s2 contactId @ [entry])"
    using recordConsentChange_effect
      [of rt contactId EXPIRED "''all''" "Some True" False "''api''" ?md s2]
    by auto
  have "s' = s3"
    using assms get upd rec
    by (auto simp: triggerReconsentWorkflow_def await_def return_def split: sum.splits)
  moreover have "auditRecords s2 = auditRecords s"
    using getContact_quiet [OF get] updateContact_quiet [OF upd] by (simp add: quiet_def)
  ultimately have "getAuditRecords s' contactId = getAuditRecords s contactId @ [entry]"
    using log by (simp add: getAuditRecords_def)
  then show ?thesis
    using act by blast
qed

text \<open>
  C2 fails on the code. \<open>runReconsentCheck\<close> goes through \<open>batchTriggerReconsent\<close>,
  which updates the contacts and builds the requests but never calls
  \<open>recordConsentChange\<close>: in every state the run leaves the audit index as it was and
  writes no audit record. For one contact without a consent date the run reports one
  contact triggered and flags it in the CRM, and the audit log of the contact stays empty.
\<close>

theorem runReconsentCheck_writes_no_audit_record:
  "auditRecords (snd (runReconsentCheck rt cfg s)) = auditRecords s
   \<and> purge_events (snd (runReconsentCheck rt cfg s)) = purge_events s
   \<and> (let (result, s') = runReconsentCheck plain_runtime default_config
                             (fresh [contact_of ''c1''] no_faults)
       in result = Inr \<lparr> totalChecked = 1, requireReconsent = 1, triggered = 1 \<rparr>
          \<and> map (\<lambda>c. (hs_id c, properties c ''reconsent_required'',
                        properties c ''gdpr_consent_status'')) (crm s')
              = [(''c1'', Some ''yes'', Some ''pending'')]
          \<and> trace s' = [Called (GetPage None), Called (BatchUpdate [''c1''])]
          \<and> getAuditRecords s' ''c1'' = [])"
proof -
  have general: "auditRecords (snd (runReconsentCheck rt cfg s)) = auditRecords s
      \<and> purge_events (snd (runReconsentCheck rt cfg s)) = purge_events s"
    using runReconsentCheck_quiet [of rt cfg s]
    by (cases "runReconsentCheck rt cfg s") (simp add: quiet_def)
  have run: "runReconsentCheck plain_runtime default_config (fresh [contact_of ''c1''] no_faults)
      = (Inr \<lparr> totalChecked = 1, requireReconsent = 1, triggered = 1 \<rparr>,
         \<lparr> crm = [\<lparr> hs_id = ''c1'',
                    properties = [''reconsent_required'' \<mapsto> ''yes'',
                                  ''gdpr_consent_status'' \<mapsto> ''pending''],
                    createdAt = [], updatedAt = [], archived = False \<rparr>],
           calls = 2, faults = no_faults, clock = (\<lambda>k. 1700000000000 + int k),
           auditRecords = Map.empty, uuids = 0, eventTemplateIds = Map.empty,
           trace = [Called (GetPage None), Called (BatchUpdate [''c1''])] \<rparr>)"
    by (simp add: runReconsentCheck_def getContactsRequiringReconsent_def paginate.simps
        batchTriggerReconsent_def update_in_batches.simps checkReconsentRequired_def
        parseDate_def await_def return_def api_def getAllContacts_def batchUpdateContacts_def
        store_getPage_def store_batchUpdate_def with_properties_def set_properties_def
        Date_now_def fresh_def no_faults_def contact_of_def plain_runtime_def
        getPropertyNames_def no_parse_def Let_def)
  show ?thesis
    using general by (simp add: run getAuditRecords_def)
qed

section \<open>The purge run stops at one page\<close>

lemma getContactsDueForPurge_result:
  assumes "getContactsDueForPurge rt s = (r, s')"
  shows "case r of
           Inl e \<Rightarrow> faults s (calls s) = Some e
         | Inr contactsDue \<Rightarrow>
             faults s (calls s) = None
             \<and> contactsDue = map (with_properties getPropertyNames)
                 (take 100 (filter (request_matches (Date_parse rt)
                    \<lparr> filterGroups =
                        [\<lparr> filters = [\<lparr> propertyName = ''scheduled_purge_date'',
                                         operator = LTE,
                                         filter_value = Some (toISOString rt (Date_now s)) \<rparr>] \<rparr>],
                      sr_properties = getPropertyNames, limit = 100, after = None \<rparr>)
                    (crm s)))"
  using assms
  by (auto simp: getContactsDueForPurge_def formatForHubSpot_def await_def sync_def return_def
      searchContacts_def api_def store_search_def Let_def split: option.splits sum.splits)

lemma due_request_matches:
  "Date_parse rt (toISOString rt now) = Some now \<Longrightarrow> \<bar>now\<bar> \<le> maxTime \<Longrightarrow>
   request_matches (Date_parse rt)
     \<lparr> filterGroups =
         [\<lparr> filters = [\<lparr> propertyName = ''scheduled_purge_date'', operator = LTE,
                          filter_value = Some (toISOString rt now) \<rparr>] \<rparr>],
       sr_properties = names, limit = n, after = cursor \<rparr> c
     = due_for_purge (Date_parse rt) now c"
  by (simp add: request_matches_def filter_matches_def due_for_purge_def property_date_def
      TimeClip_def)

lemma executeScheduledPurges_bound:
  assumes "executeScheduledPurges rt s = (Inr run, s')"
  shows "length (run_results run) \<le> 100 \<and> purged run + failed run = length (run_results run)"
proof (cases rule: executeScheduledPurges_cases [of rt s])
  case (search_failed e s')
  then show ?thesis using assms by simp
next
  case (purged contactsDue s1 run1 s2)
  then have run: "run1 = run"
    using assms by simp
  have "length contactsDue \<le> 100"
    using getContactsDueForPurge_result [OF purged(1)] by simp
  moreover from purge_each_results [OF purged(3)] obtain new where
    "run_results run1 = run_results no_purges @ new
     \<and> map pr_contactId new = map hs_id contactsDue
     \<and> purged run1 = purged no_purges + length (filter pr_success new)
     \<and> failed run1 = failed no_purges + length (filter (\<lambda>r. \<not> pr_success r) new)
     \<and> list_all (\<lambda>r. pr_success r = (pr_error r = None)) new
     \<and> list_all (\<lambda>r. pr_success r \<longrightarrow> pr_contactId r \<notin> set (map hs_id (crm s2))) new"
    ..
  then have new: "run_results run1 = new" "map pr_contactId new = map hs_id contactsDue"
    "purged run1 = length (filter pr_success new)"
    "failed run1 = length (filter (\<lambda>r. \<not> pr_success r) new)"
    by (simp_all add: no_purges_def)
  moreover have "length new = length contactsDue"
    using new(2) by (metis length_map)
  moreover have "length (filter pr_success new) + length (filter (\<lambda>r. \<not> pr_success r) new)
      = length new"
    by (rule sum_length_filter_compl)
  ultimately show ?thesis
    using run by simp
qed

lemma overdue_crm_due:
  "filter (due_for_purge (Date_parse epoch_runtime) 1700000000000) overdue_crm = overdue_crm"
  by (simp add: overdue_crm_def filter_map o_def due_for_purge_def property_date_def
      overdue_contact_def epoch_runtime_def num_le_def TimeClip_def maxTime_def)

text \<open>
  C3 fails on the code. \<open>getContactsDueForPurge\<close> issues one search with limit 100 and
  returns its results, without reading the cursor of the response: a run of
  \<open>executeScheduledPurges\<close> never processes more than 100 contacts. With 101 contacts
  due and no call failing, the run processes 100.
\<close>

theorem executeScheduledPurges_stops_at_100:
  "(case executeScheduledPurges rt s of
      (Inl e, s') \<Rightarrow> True
    | (Inr run, s') \<Rightarrow>
        length (run_results run) \<le> 100 \<and> purged run + failed run \<le> 100)
   \<and> length (filter (due_for_purge (Date_parse epoch_runtime)
                       (Date_now (fresh overdue_crm no_faults)))
                (crm (fresh overdue_crm no_faults))) = 101
   \<and> (\<exists>run s'. executeScheduledPurges epoch_runtime (fresh overdue_crm no_faults)
                   = (Inr run, s')
                 \<and> length (run_results run) = 100
                 \<and> purged run + failed run = 100)"
proof -
  let ?s = "fresh overdue_crm no_faults"
  have general: "case executeScheduledPurges rt s of
      (Inl e, s') \<Rightarrow> True
    | (Inr run, s') \<Rightarrow>
        length (run_results run) \<le> 100 \<and> purged run + failed run \<le> 100"
    using executeScheduledPurges_bound [of rt s]
    by (cases "executeScheduledPurges rt s") (auto split: sum.splits)
  have now: "Date_now ?s = 1700000000000" and crm: "crm ?s = overdue_crm"
    and ok: "faults ?s (calls ?s) = None"
    by (simp_all add: Date_now_def fresh_def no_faults_def)
  have due: "length (filter (due_for_purge (Date_parse epoch_runtime) (Date_now ?s)) (crm ?s))
      = 101"
    unfolding now crm overdue_crm_due by (simp add: overdue_crm_def)
  have concrete: "\<exists>run s'. executeScheduledPurges epoch_runtime ?s = (Inr run, s')
      \<and> length (run_results run) = 100 \<and> purged run + failed run = 100"
  proof (cases rule: executeScheduledPurges_cases [of epoch_runtime ?s])
    case (search_failed e s')
    obtain r s1 where get: "getContactsDueForPurge epoch_runtime ?s = (r, s1)"
      by (cases "getContactsDueForPurge epoch_runtime ?s") auto
    have "\<exists>contactsDue. r = Inr contactsDue"
      using getContactsDueForPurge_result [OF get] ok by (cases r) simp_all
    then show ?thesis
      using search_failed(1) get by (auto simp: executeScheduledPurges_def await_def split: prod.splits)
  next
    case (purged contactsDue s1 run s')
    have matches: "request_matches (Date_parse epoch_runtime)
        \<lparr> filterGroups =
            [\<lparr> filters = [\<lparr> propertyName = ''scheduled_purge_date'', operator = LTE,
                filter_value = Some (toISOString epoch_runtime 1700000000000) \<rparr>] \<rparr>],
          sr_properties = getPropertyNames, limit = 100, after = None \<rparr>
        = due_for_purge (Date_parse epoch_runtime) 1700000000000"
      by (rule ext, rule due_request_matches) (simp_all add: epoch_runtime_def maxTime_def)
    have "contactsDue = map (with_properties getPropertyNames) (take 100 overdue_crm)"
      using getContactsDueForPurge_result [OF purged(1)]
      unfolding now crm matches overdue_crm_due by simp
    then have len: "length contactsDue = 100"
      by (simp add: overdue_crm_def)
    from purge_each_results [OF purged(3)] obtain new where
      "run_results run = run_results no_purges @ new
       \<and> map pr_contactId new = map hs_id contactsDue
       \<and> purged run = purged no_purges + length (filter pr_success new)
       \<and> failed run = failed no_purges + length (filter (\<lambda>r. \<not> pr_success r) new)
       \<and> list_all (\<lambda>r. pr_success r = (pr_error r = None)) new
       \<and> list_all (\<lambda>r. pr_success r \<longrightarrow> pr_contactId r \<notin> set (map hs_id (crm s'))) new"
      ..
    then have "run_results run = new" "map pr_contactId new = map hs_id contactsDue"
      by (simp_all add: no_purges_def)
    then have "length (run_results run) = 100"
      using len by (metis length_map)
    moreover have "purged run + failed run = length (run_results run)"
      using executeScheduledPurges_bound [OF purged(4)] by simp
    ultimately show ?thesis
      using purged(4) by simp
  qed
  show ?thesis
    using general due concrete by blast
qed

section \<open>The compliance score\<close>








section \<open>Granting consent\<close>











end
